theory Spec2Isabelle
  imports Complex_Main "HOL-Library.Sublist"
begin

section \<open>Errors\<close>

text \<open>
  The exceptions the code raises, as values. The first six are the classes of the
  \<^verbatim>\<open>error\<close> module (\<^verbatim>\<open>err.InvalidRequest\<close>, ...); the last four are Python's
  built-in exceptions. The string is the exception's text where the source builds it from
  plain strings, and the payload the text is rendered from otherwise.
\<close>

datatype error =
    InvalidRequest string
  | NotAuthorized string
  | NotFound string
  | InvalidState string
  | ServiceError string
  | InternalError string
  | ValueError string
  | IndexError string
  | KeyError string
  | TypeError string

section \<open>Schema compiler (utils.py: make\_type, make\_column, make\_key, make\_fkey, make\_table)\<close>

text \<open>The members of \<^verbatim>\<open>builtin_types\<close> that \<^verbatim>\<open>make_type\<close> returns.\<close>

datatype builtin_type = BT_text | BT_timestamptz | BT_int8 | BT_float8 | BT_text_array

definition make_type :: "string \<Rightarrow> error + builtin_type" where
  "make_type col_type =
     (if col_type = ''string'' then Inr BT_text
      else if col_type = ''datetime'' then Inr BT_timestamptz
      else if col_type = ''integer'' then Inr BT_int8
      else if col_type = ''number'' then Inr BT_float8
      else if col_type = ''list'' then Inr BT_text_array
      else Inl (ValueError (''Mapping undefined for type '' @ [CHR 0x27] @ col_type @ [CHR 0x27])))"










text \<open>A value that is either a bare string or a list of strings.\<close>

datatype str_or_list = Bare string | Listed "string list"




definition as_list :: "str_or_list \<Rightarrow> string list" where
  "as_list v = (case v of Bare s \<Rightarrow> [s] | Listed xs \<Rightarrow> xs)"








section \<open>Python built-ins the code relies on\<close>

text \<open>
  Byte strings and strings are \<^typ>\<open>string\<close>. \<^verbatim>\<open>b.strip()\<close> removes ASCII whitespace
  (space, tab, line feed, vertical tab, form feed, carriage return) from both ends.
\<close>

definition is_space :: "char \<Rightarrow> bool" where
  "is_space c = (c \<in> set [CHR '' '', CHR 0x09, CHR 0x0A, CHR 0x0B, CHR 0x0C, CHR 0x0D])"

definition py_strip :: "string \<Rightarrow> string" where
  "py_strip s = rev (dropWhile is_space (rev (dropWhile is_space s)))"

text \<open>
  \<^verbatim>\<open>s.split(sep)\<close> for a separator that is not empty (every separator in the code is a
  literal): the pieces between the occurrences of \<^verbatim>\<open>sep\<close>, found from the left and not
  overlapping. \<^verbatim>\<open>acc\<close> is the current piece, reversed.
\<close>

function split_aux :: "string \<Rightarrow> string \<Rightarrow> string \<Rightarrow> string list" where
  "split_aux sep acc [] = [rev acc]"
| "split_aux sep acc (c # cs) =
     (if sep \<noteq> [] \<and> prefix sep (c # cs)
      then rev acc # split_aux sep [] (drop (length sep) (c # cs))
      else split_aux sep (c # acc) cs)"
  by pat_completeness auto
termination
  by (relation "measure (\<lambda>(sep, acc, s). length s)") auto

definition py_split :: "string \<Rightarrow> string \<Rightarrow> string list" where
  "py_split s sep = split_aux sep [] s"

text \<open>\<^verbatim>\<open>xs[0]\<close> and \<^verbatim>\<open>xs[-1]\<close>, which raise \<^verbatim>\<open>IndexError\<close> on an empty list.\<close>

definition first_item :: "'a list \<Rightarrow> error + 'a" where
  "first_item xs = (case xs of [] \<Rightarrow> Inl (IndexError ''list index out of range'') | x # _ \<Rightarrow> Inr x)"

definition last_item :: "'a list \<Rightarrow> error + 'a" where
  "last_item xs = (case rev xs of [] \<Rightarrow> Inl (IndexError ''list index out of range'') | x # _ \<Rightarrow> Inr x)"

text \<open>
  \<^verbatim>\<open>int(s)\<close> on a byte string or ASCII string, base 10: surrounding whitespace is
  ignored, one sign is allowed, then decimal digits with single underscores between digits.
  Anything else raises \<^verbatim>\<open>ValueError\<close> (the model keeps the literal as the error's payload).
\<close>

definition digit_val :: "char \<Rightarrow> nat option" where
  "digit_val c = (let n = (of_char c :: nat) in if 48 \<le> n \<and> n \<le> 57 then Some (n - 48) else None)"

fun int_digits :: "nat \<Rightarrow> bool \<Rightarrow> string \<Rightarrow> nat option" where
  "int_digits acc prev [] = (if prev then Some acc else None)"
| "int_digits acc prev (c # cs) =
     (if c = CHR ''_''
      then (if prev \<and> cs \<noteq> [] then int_digits acc False cs else None)
      else (case digit_val c of None \<Rightarrow> None | Some d \<Rightarrow> int_digits (10 * acc + d) True cs))"

definition py_int :: "string \<Rightarrow> error + int" where
  "py_int s =
     (let t = py_strip s;
          r = (case t of
                 [] \<Rightarrow> None
               | c # cs \<Rightarrow>
                   if c = CHR ''-'' then map_option (\<lambda>n. - int n) (int_digits 0 False cs)
                   else if c = CHR ''+'' then map_option int (int_digits 0 False cs)
                   else map_option int (int_digits 0 False t))
      in case r of None \<Rightarrow> Inl (ValueError s) | Some i \<Rightarrow> Inr i)"

text \<open>\<^verbatim>\<open>str(i)\<close> for an integer.\<close>

definition digit_char :: "nat \<Rightarrow> char" where
  "digit_char d = char_of (48 + d)"

fun dec_nat :: "nat \<Rightarrow> string" where
  "dec_nat n = (if n < 10 then [digit_char n] else dec_nat (n div 10) @ [digit_char (n mod 10)])"

definition str_int :: "int \<Rightarrow> string" where
  "str_int i = (if i < 0 then CHR ''-'' # dec_nat (nat (- i)) else dec_nat (nat i))"

text \<open>\<^verbatim>\<open>os.path.join(a, b)\<close> for two components (POSIX).\<close>

definition os_path_join :: "string \<Rightarrow> string \<Rightarrow> string" where
  "os_path_join a b =
     (if prefix ''/'' b then b
      else if a = [] \<or> suffix ''/'' a then a @ b
      else a @ ''/'' @ b)"

text \<open>
  A catalog identifier as the request body, the configuration or the ingest result carries
  it: a JSON integer or a string.
\<close>

datatype catid = CInt int | CStr string

definition str_catid :: "catid \<Rightarrow> string" where
  "str_catid c = (case c of CInt i \<Rightarrow> str_int i | CStr s \<Rightarrow> s)"

definition truthy_catid :: "catid \<Rightarrow> bool" where
  "truthy_catid c = (case c of CInt i \<Rightarrow> i \<noteq> 0 | CStr s \<Rightarrow> s \<noteq> [])"

text \<open>
  The value under \<^verbatim>\<open>details["deriva_id"]\<close>: a Python integer, the \<^verbatim>\<open>Decimal\<close> the
  store's client returns for every stored number, or a string.
\<close>

datatype idval = IdInt int | IdDecimal rat | IdStr string

definition idval_of :: "catid \<Rightarrow> idval" where
  "idval_of c = (case c of CInt i \<Rightarrow> IdInt i | CStr s \<Rightarrow> IdStr s)"

text \<open>The truth value of such a value: zero and the empty string are false.\<close>

definition truthy_id :: "idval \<Rightarrow> bool" where
  "truthy_id v = (case v of IdInt i \<Rightarrow> i \<noteq> 0 | IdDecimal r \<Rightarrow> r \<noteq> 0 | IdStr s \<Rightarrow> s \<noteq> [])"

text \<open>\<^verbatim>\<open>int(v)\<close>: a \<^verbatim>\<open>Decimal\<close> is truncated towards zero, a string is parsed.\<close>

definition int_of_id :: "idval \<Rightarrow> error + int" where
  "int_of_id v =
     (case v of
        IdInt i \<Rightarrow> Inr i
      | IdDecimal r \<Rightarrow> Inr (if r < 0 then \<lceil>r\<rceil> else \<lfloor>r\<rfloor>)
      | IdStr s \<Rightarrow> py_int s)"

section \<open>Action records and the status store (utils.py)\<close>

text \<open>
  The \<^verbatim>\<open>details\<close> dictionary of a status: each key the code writes, absent or present.
  \<^verbatim>\<open>error\<close> is \<^verbatim>\<open>False\<close> after a success and a text after a failure.
\<close>

datatype err_field = ErrFalse | ErrText string

record details =
  d_message :: "string option"
  d_error :: "err_field option"
  d_deriva_id :: "idval option"
  d_deriva_link :: "string option"
  d_deriva_samples_link :: "string option"

definition no_details :: details where
  "no_details = \<lparr>d_message = None, d_error = None, d_deriva_id = None,
                  d_deriva_link = None, d_deriva_samples_link = None\<rparr>"

text \<open>
  The status dictionary of an Action, with the keys \<^verbatim>\<open>run\<close> and
  \<^verbatim>\<open>create_action_status\<close> write. Before \<^verbatim>\<open>create_action_status\<close> has set it,
  \<^verbatim>\<open>action_id\<close> is the empty string.
\<close>

record action =
  action_id :: string
  a_status :: string
  manage_by :: "string list"
  monitor_by :: "string list"
  creator_id :: string
  release_after :: string
  request_id :: string
  a_label :: "string option"
  a_details :: "details option"

text \<open>
  The DynamoDB table is the list of its items, at most one per \<^verbatim>\<open>action_id\<close>. How the
  service behaves during one operation is given by \<open>dynamo_env\<close>: whether the table is
  there and active, whether \<^verbatim>\<open>get_item\<close>, \<^verbatim>\<open>put_item\<close> or \<^verbatim>\<open>delete_item\<close> raise
  (with the exception's text), the HTTP status of a scan response and the number of items
  one scan call evaluates. A call that raises leaves the table as it was.
\<close>

datatype table_state = TableActive | TableNotActive | TableFault string

record dynamo_env =
  table_state :: table_state
  get_item_error :: "string option"
  put_item_error :: "string option"
  delete_item_error :: "string option"
  scan_http_status :: nat
  scan_page :: nat

definition get_dmo_table :: "dynamo_env \<Rightarrow> error + unit" where
  "get_dmo_table env =
     (case table_state env of
        TableActive \<Rightarrow> Inr ()
      | TableNotActive \<Rightarrow> Inl (NotFound ''Table does not exist or is not active'')
      | TableFault m \<Rightarrow> Inl (ServiceError m))"

text \<open>
  The store's client returns every stored number as a \<^verbatim>\<open>Decimal\<close>
  (``DynamoDB stores int as Decimal'').
\<close>

definition stored_id :: "idval \<Rightarrow> idval" where
  "stored_id v = (case v of IdInt i \<Rightarrow> IdDecimal (of_int i) | IdDecimal r \<Rightarrow> IdDecimal r | IdStr s \<Rightarrow> IdStr s)"

definition stored_item :: "action \<Rightarrow> action" where
  "stored_item a =
     a\<lparr>a_details := map_option (\<lambda>d. d\<lparr>d_deriva_id := map_option stored_id (d_deriva_id d)\<rparr>) (a_details a)\<rparr>"

definition has_key :: "action list \<Rightarrow> string \<Rightarrow> bool" where
  "has_key tbl aid = (find (\<lambda>a. action_id a = aid) tbl \<noteq> None)"

text \<open>
  \<^verbatim>\<open>table.put_item(Item=item)\<close>, with or without the condition
  \<^verbatim>\<open>Attr("action_id").not_exists()\<close>: it replaces the item of the same key or adds one.
  The result is the exception's text or the new table.
\<close>

definition put_item :: "dynamo_env \<Rightarrow> action list \<Rightarrow> action \<Rightarrow> bool \<Rightarrow> string + action list" where
  "put_item env tbl item not_exists =
     (case put_item_error env of
        Some m \<Rightarrow> Inl m
      | None \<Rightarrow>
          if not_exists \<and> has_key tbl (action_id item)
          then Inl ''ConditionalCheckFailedException''
          else if has_key tbl (action_id item)
          then Inr (map (\<lambda>a. if action_id a = action_id item then stored_item item else a) tbl)
          else Inr (tbl @ [stored_item item]))"

definition delete_item :: "dynamo_env \<Rightarrow> action list \<Rightarrow> string \<Rightarrow> string + action list" where
  "delete_item env tbl aid =
     (case delete_item_error env of
        Some m \<Rightarrow> Inl m
      | None \<Rightarrow> Inr (filter (\<lambda>a. action_id a \<noteq> aid) tbl))"

definition read_action_status :: "dynamo_env \<Rightarrow> action list \<Rightarrow> string \<Rightarrow> error + action" where
  "read_action_status env tbl aid =
     (case get_dmo_table env of
        Inl e \<Rightarrow> Inl e
      | Inr _ \<Rightarrow>
          (case get_item_error env of
             Some m \<Rightarrow> Inl (ServiceError m)
           | None \<Rightarrow>
               (case find (\<lambda>a. action_id a = aid) tbl of
                  None \<Rightarrow> Inl (NotFound (''Action ID '' @ aid @ '' not found in status database''))
                | Some entry \<Rightarrow> Inr entry)))"

text \<open>
  \<^verbatim>\<open>generate_action_id\<close>: the list holds the identifiers \<^verbatim>\<open>bson.ObjectId()\<close> will
  produce, in order. The loop of the source has no bound; the result \<open>None\<close> stands for a
  loop that has used every identifier of the list without returning. Only \<^verbatim>\<open>NotFound\<close>
  is caught: any other error of the probe propagates.
\<close>

fun generate_action_id ::
  "dynamo_env \<Rightarrow> action list \<Rightarrow> string list \<Rightarrow> ((error + string) \<times> string list) option" where
  "generate_action_id env tbl [] = None"
| "generate_action_id env tbl (c # cs) =
     (case read_action_status env tbl c of
        Inl (NotFound _) \<Rightarrow> Some (Inr c, cs)
      | Inl e \<Rightarrow> Some (Inl e, cs)
      | Inr _ \<Rightarrow> generate_action_id env tbl cs)"

text \<open>The store together with the identifiers still to come.\<close>

record store =
  s_table :: "action list"
  s_ids :: "string list"

definition details_falsy :: "details option \<Rightarrow> bool" where
  "details_falsy d = (case d of None \<Rightarrow> True | Some x \<Rightarrow> x = no_details)"

definition create_action_status ::
  "dynamo_env \<Rightarrow> store \<Rightarrow> action \<Rightarrow> ((error + action) \<times> store) option" where
  "create_action_status env s action_status =
     (case get_dmo_table env of
        Inl e \<Rightarrow> Some (Inl e, s)
      | Inr _ \<Rightarrow>
          (case generate_action_id env (s_table s) (s_ids s) of
             None \<Rightarrow> None
           | Some (Inl e, ids) \<Rightarrow> Some (Inl e, s\<lparr>s_ids := ids\<rparr>)
           | Some (Inr aid, ids) \<Rightarrow>
               (let st = action_status\<lparr>action_id := aid\<rparr>;
                    st = (if details_falsy (a_details st)
                          then st\<lparr>a_details := Some (no_details\<lparr>d_message := Some ''Action started''\<rparr>)\<rparr>
                          else st)
                in case put_item env (s_table s) st True of
                     Inl m \<Rightarrow> Some (Inl (ServiceError m), s\<lparr>s_ids := ids\<rparr>)
                   | Inr tbl \<Rightarrow> Some (Inr st, s\<lparr>s_table := tbl, s_ids := ids\<rparr>))))"

text \<open>
  One response of \<^verbatim>\<open>table.scan\<close> with the filter \<^verbatim>\<open>Attr("request_id").eq(request_id)\<close>.
  The service evaluates a bounded number of items per call (at least one), starting after
  \<^verbatim>\<open>ExclusiveStartKey\<close>, returns those that pass the filter, and returns
  \<^verbatim>\<open>LastEvaluatedKey\<close> when items remain. The key is modelled by the position reached.
\<close>

record scan_res =
  http_status_code :: nat
  res_items :: "action list"
  last_evaluated_key :: "nat option"

definition scan :: "dynamo_env \<Rightarrow> action list \<Rightarrow> string \<Rightarrow> nat option \<Rightarrow> scan_res" where
  "scan env tbl rid exclusive_start_key =
     (let start = (case exclusive_start_key of None \<Rightarrow> 0 | Some k \<Rightarrow> k);
          n = max 1 (scan_page env)
      in \<lparr>http_status_code = scan_http_status env,
          res_items = filter (\<lambda>a. request_id a = rid) (take n (drop start tbl)),
          last_evaluated_key = (if start + n < length tbl then Some (start + n) else None)\<rparr>)"

text \<open>The \<^verbatim>\<open>while True\<close> loop of \<^verbatim>\<open>read_action_by_request\<close>.\<close>

function scan_loop ::
  "dynamo_env \<Rightarrow> action list \<Rightarrow> string \<Rightarrow> nat option \<Rightarrow> action list \<Rightarrow> error + action list" where
  "scan_loop env tbl rid start result_entries =
     (let scan_res = scan env tbl rid start
      in if http_status_code scan_res \<ge> 300
         then Inl (ServiceError ''ResponseMetadata'')
         else (let result_entries = result_entries @ res_items scan_res
               in case last_evaluated_key scan_res of
                    Some k \<Rightarrow> scan_loop env tbl rid (Some k) result_entries
                  | None \<Rightarrow> Inr result_entries))"
  by pat_completeness auto
termination
  by (relation "measure (\<lambda>(env, tbl, rid, start, acc).
        length tbl - (case start of None \<Rightarrow> 0 | Some k \<Rightarrow> k))")
     (auto simp: scan_def Let_def split: if_splits option.splits)

definition read_action_by_request :: "dynamo_env \<Rightarrow> action list \<Rightarrow> string \<Rightarrow> error + action" where
  "read_action_by_request env tbl rid =
     (case get_dmo_table env of
        Inl e \<Rightarrow> Inl e
      | Inr _ \<Rightarrow>
          (case scan_loop env tbl rid None [] of
             Inl e \<Rightarrow> Inl e
           | Inr result_entries \<Rightarrow>
               if length result_entries \<le> 0
               then Inl (NotFound (''Request ID '' @ [CHR 0x27] @ rid @ [CHR 0x27]
                                    @ '' not found in status database''))
               else if length result_entries = 1
               then Inr (result_entries ! 0)
               else Inl (InternalError (''Multiple entries found for request ID '' @ [CHR 0x27] @ rid
                                         @ [CHR 0x27] @ ''. Please report this error.''))))"

text \<open>
  The updates every caller of \<^verbatim>\<open>update_action_status\<close> passes: a dictionary with the keys
  \<^verbatim>\<open>status\<close> and \<^verbatim>\<open>details\<close>.
\<close>

record updates =
  u_status :: "string option"
  u_details :: "details option"

definition or_else :: "'a option \<Rightarrow> 'a option \<Rightarrow> 'a option" where
  "or_else a b = (case a of None \<Rightarrow> b | Some x \<Rightarrow> Some x)"

text \<open>
  \<^verbatim>\<open>mdf_toolbox.dict_merge(updates, old_status)\<close>: the keys of \<^verbatim>\<open>updates\<close> are kept, the
  keys of \<^verbatim>\<open>old_status\<close> that \<^verbatim>\<open>updates\<close> lacks are added, and where both values are
  dictionaries (\<^verbatim>\<open>details\<close>) they are merged the same way.
\<close>

definition merge_details :: "details \<Rightarrow> details \<Rightarrow> details" where
  "merge_details base addition =
     \<lparr>d_message = or_else (d_message base) (d_message addition),
      d_error = or_else (d_error base) (d_error addition),
      d_deriva_id = or_else (d_deriva_id base) (d_deriva_id addition),
      d_deriva_link = or_else (d_deriva_link base) (d_deriva_link addition),
      d_deriva_samples_link = or_else (d_deriva_samples_link base) (d_deriva_samples_link addition)\<rparr>"

definition dict_merge :: "updates \<Rightarrow> action \<Rightarrow> action" where
  "dict_merge upd old_status =
     old_status\<lparr>
       a_status := (case u_status upd of None \<Rightarrow> a_status old_status | Some s \<Rightarrow> s),
       a_details := (case u_details upd of
                       None \<Rightarrow> a_details old_status
                     | Some d \<Rightarrow> (case a_details old_status of
                                    None \<Rightarrow> Some d
                                  | Some od \<Rightarrow> Some (merge_details d od)))\<rparr>"

text \<open>
  \<^verbatim>\<open>update_action_status\<close> with \<^verbatim>\<open>overwrite=False\<close>, the default, which every call in
  the repository uses. It returns the merged status and the new table.
\<close>

definition update_action_status ::
  "dynamo_env \<Rightarrow> action list \<Rightarrow> string \<Rightarrow> updates \<Rightarrow> error + (action \<times> action list)" where
  "update_action_status env tbl aid upd =
     (case read_action_status env tbl aid of
        Inl e \<Rightarrow> Inl e
      | Inr old_status \<Rightarrow>
          (let full_updates = dict_merge upd old_status
           in case get_dmo_table env of
                Inl e \<Rightarrow> Inl e
              | Inr _ \<Rightarrow>
                  (case put_item env tbl full_updates False of
                     Inl m \<Rightarrow> Inl (ServiceError m)
                   | Inr tbl' \<Rightarrow> Inr (full_updates, tbl'))))"

text \<open>
  \<^verbatim>\<open>delete_action_status\<close>. When \<^verbatim>\<open>delete_item\<close> raises, the handler logs and builds an
  \<^verbatim>\<open>err.ServiceError\<close> without raising it, so control goes on to the verification read.
\<close>

definition delete_action_status ::
  "dynamo_env \<Rightarrow> action list \<Rightarrow> string \<Rightarrow> (error + unit) \<times> action list" where
  "delete_action_status env tbl aid =
     (case read_action_status env tbl aid of
        Inl e \<Rightarrow> (Inl e, tbl)
      | Inr _ \<Rightarrow>
          (case get_dmo_table env of
             Inl e \<Rightarrow> (Inl e, tbl)
           | Inr _ \<Rightarrow>
               (let tbl' = (case delete_item env tbl aid of Inl m \<Rightarrow> tbl | Inr t \<Rightarrow> t)
                in case read_action_status env tbl' aid of
                     Inl (NotFound _) \<Rightarrow> (Inr (), tbl')
                   | Inl e \<Rightarrow> (Inl e, tbl')
                   | Inr _ \<Rightarrow> (Inl (InternalError ''Action status was not deleted.''), tbl'))))"

text \<open>\<^verbatim>\<open>translate_status\<close>: the guard is the truth value of \<^verbatim>\<open>details["deriva_id"]\<close>.\<close>

definition translate_status :: "action \<Rightarrow> error + action" where
  "translate_status raw_status =
     (case a_details raw_status of
        None \<Rightarrow> Inr raw_status
      | Some d \<Rightarrow>
          (case d_deriva_id d of
             None \<Rightarrow> Inr raw_status
           | Some v \<Rightarrow>
               if truthy_id v
               then (case int_of_id v of
                       Inl e \<Rightarrow> Inl e
                     | Inr i \<Rightarrow> Inr (raw_status\<lparr>a_details := Some (d\<lparr>d_deriva_id := Some (IdInt i)\<rparr>)\<rparr>))
               else Inr raw_status))"

section \<open>The API routes (api.py)\<close>

text \<open>
  The caller as \<^verbatim>\<open>request.auth\<close> holds it: the verified identities and the effective
  identity.
\<close>

record auth_state =
  identities :: "string list"
  effective_identity :: string

text \<open>
  Modelled from the spec: \<^verbatim>\<open>check_authorization\<close> is a method of the authentication
  library, not of this repository. The spec describes it as the predicate that holds when
  the caller's identities intersect the required principals, or, where the caller asks for
  it, when the required principals name all authenticated users.
\<close>

definition check_authorization :: "auth_state \<Rightarrow> string list \<Rightarrow> bool \<Rightarrow> bool" where
  "check_authorization auth allowed allow_all_authenticated_users =
     (set allowed \<inter> set (identities auth) \<noteq> {}
      \<or> (allow_all_authenticated_users \<and> ''all_authenticated_users'' \<in> set allowed
          \<and> identities auth \<noteq> []))"

type_synonym acls = "(string \<times> string list) list"

text \<open>The \<^verbatim>\<open>body\<close> of a run request and the request itself.\<close>

record body =
  b_operation :: "string option"
  b_data_url :: "string option"
  b_catalog_id :: "catid option"
  b_catalog_acls :: "acls option"
  b_server :: "string option"

record run_request =
  rq_body :: body
  rq_request_id :: string
  rq_label :: "string option"
  rq_manage_by :: "str_or_list option"
  rq_monitor_by :: "str_or_list option"
  rq_release_after :: "string option"
  rq_deadline :: "string option"

record catalog_info =
  ci_catalog_id :: catid
  ci_server :: string

text \<open>
  What \<^verbatim>\<open>run\<close> takes from outside the repository's sources: the outcome of
  \<^verbatim>\<open>jsonschema.validate\<close> against \<^verbatim>\<open>CONFIG["INPUT_SCHEMA"]\<close> (\<open>None\<close> when the body is
  valid, else the first line of the error), \<^verbatim>\<open>CONFIG["KNOWN_CATALOGS"]\<close>, the clock (in
  seconds), and the three functions of the date library, with durations and instants in
  seconds.
\<close>

record api_env =
  schema_error :: "body \<Rightarrow> string option"
  known_catalogs :: "(catid \<times> catalog_info) list"
  now :: int
  parse_duration :: "string \<Rightarrow> error + int"
  parse_datetime :: "string \<Rightarrow> error + int"
  duration_isoformat :: "int \<Rightarrow> string"

text \<open>The process \<^verbatim>\<open>start_action\<close> starts, with the arguments it is given.\<close>

datatype process =
    Restore string string "string option" "catid option"
  | Ingest string string "string option" "catid option" "acls option"
  | Modify string catid "string option" "acls option"

record api_state =
  st_store :: store
  st_spawned :: "process list"

record response =
  status_code :: nat
  json :: action

definition falsy_str :: "string option \<Rightarrow> bool" where
  "falsy_str v = (case v of None \<Rightarrow> True | Some s \<Rightarrow> s = [])"

definition falsy_catalog :: "catid option \<Rightarrow> bool" where
  "falsy_catalog v = (case v of None \<Rightarrow> True | Some c \<Rightarrow> \<not> truthy_catid c)"

definition falsy_acls :: "acls option \<Rightarrow> bool" where
  "falsy_acls v = (case v of None \<Rightarrow> True | Some a \<Rightarrow> a = [])"

text \<open>The checks at the head of \<^verbatim>\<open>run\<close>, before the store is read.\<close>

definition validate_body :: "api_env \<Rightarrow> body \<Rightarrow> error + unit" where
  "validate_body cfg body =
     (case schema_error cfg body of
        Some line \<Rightarrow> Inl (InvalidRequest line)
      | None \<Rightarrow>
          (case b_operation body of
             None \<Rightarrow> Inl (KeyError ''operation'')
           | Some operation \<Rightarrow>
               if operation \<in> set [''ingest'', ''restore''] \<and> falsy_str (b_data_url body)
               then Inl (InvalidRequest ''You must provide a data_url to ingest or restore.'')
               else if operation = ''modify''
               then (if falsy_catalog (b_catalog_id body)
                     then Inl (InvalidRequest ''You must specify the catalog_id to modify.'')
                     else if falsy_acls (b_catalog_acls body)
                     then Inl (InvalidRequest (''You must specify content in the catalog to modify. ''
                                               @ ''(Currently only catalog_acls qualifies.)''))
                     else Inr ())
               else Inr ()))"

text \<open>
  \<^verbatim>\<open>start_action\<close>: the keyword catalog is replaced from \<^verbatim>\<open>KNOWN_CATALOGS\<close>, then one
  process is started for the operation.
\<close>

definition resolve_catalog :: "api_env \<Rightarrow> body \<Rightarrow> error + body" where
  "resolve_catalog cfg action_data =
     (case b_catalog_id action_data of
        None \<Rightarrow> Inr action_data
      | Some c \<Rightarrow>
          (case map_of (known_catalogs cfg) c of
             None \<Rightarrow> Inr action_data
           | Some catalog_info \<Rightarrow>
               (let action_data = action_data\<lparr>b_catalog_id := Some (ci_catalog_id catalog_info)\<rparr>
                in case b_server action_data of
                     None \<Rightarrow> Inr (action_data\<lparr>b_server := Some (ci_server catalog_info)\<rparr>)
                   | Some server \<Rightarrow>
                       if server = []
                       then Inr (action_data\<lparr>b_server := Some (ci_server catalog_info)\<rparr>)
                       else if server \<noteq> ci_server catalog_info
                       then Inl (ValueError (''Server '' @ [CHR 0x27] @ server @ [CHR 0x27]
                                   @ '' does not match server for catalog '' @ [CHR 0x27]
                                   @ str_catid (ci_catalog_id catalog_info) @ [CHR 0x27]
                                   @ '' ('' @ ci_server catalog_info @ '')''))
                       else Inr action_data)))"

definition start_action :: "api_env \<Rightarrow> string \<Rightarrow> body \<Rightarrow> error + process" where
  "start_action cfg aid action_data0 =
     (case resolve_catalog cfg action_data0 of
        Inl e \<Rightarrow> Inl e
      | Inr action_data \<Rightarrow>
          (case b_operation action_data of
             None \<Rightarrow> Inl (KeyError ''operation'')
           | Some operation \<Rightarrow>
               if operation = ''restore''
               then (case b_data_url action_data of
                       None \<Rightarrow> Inl (KeyError ''data_url'')
                     | Some url \<Rightarrow>
                         Inr (Restore aid url (b_server action_data) (b_catalog_id action_data)))
               else if operation = ''ingest''
               then (case b_data_url action_data of
                       None \<Rightarrow> Inl (KeyError ''data_url'')
                     | Some url \<Rightarrow>
                         Inr (Ingest aid url (b_server action_data) (b_catalog_id action_data)
                                (b_catalog_acls action_data)))
               else if operation = ''modify''
               then (case b_catalog_id action_data of
                       None \<Rightarrow> Inl (KeyError ''catalog_id'')
                     | Some c \<Rightarrow>
                         Inr (Modify aid c (b_server action_data) (b_catalog_acls action_data)))
               else Inl (InvalidRequest (''Operation '' @ [CHR 0x27] @ operation @ [CHR 0x27]
                                         @ '' unknown''))))"

text \<open>
  The \<^verbatim>\<open>try\<close> of \<^verbatim>\<open>run\<close>: the checks of the body, then the lookup by
  \<^verbatim>\<open>request_id\<close>. \<open>Inr None\<close> is the \<^verbatim>\<open>except err.NotFound\<close> branch, \<open>Inr (Some s)\<close>
  the \<^verbatim>\<open>else\<close> branch; any other error leaves \<^verbatim>\<open>run\<close>.
\<close>

definition run_lookup ::
  "api_env \<Rightarrow> dynamo_env \<Rightarrow> api_state \<Rightarrow> run_request \<Rightarrow> error + action option" where
  "run_lookup cfg env st req =
     (case validate_body cfg (rq_body req) of
        Inl e \<Rightarrow> Inl e
      | Inr _ \<Rightarrow>
          (case read_action_by_request env (s_table (st_store st)) (rq_request_id req) of
             Inl (NotFound _) \<Rightarrow> Inr None
           | Inl e \<Rightarrow> Inl e
           | Inr status \<Rightarrow> Inr (Some status)))"

text \<open>The job dictionary the \<^verbatim>\<open>except err.NotFound\<close> branch builds.\<close>

definition build_job :: "api_env \<Rightarrow> auth_state \<Rightarrow> run_request \<Rightarrow> error + action" where
  "build_job cfg auth req =
     (let estimated_completion = now cfg + 86400;
          default_release_after = 30 * 86400;
          manage = (case rq_manage_by req of None \<Rightarrow> identities auth | Some m \<Rightarrow> as_list m);
          monitor = (case rq_monitor_by req of None \<Rightarrow> identities auth | Some m \<Rightarrow> as_list m)
      in case (case rq_release_after req of
                 None \<Rightarrow> Inr default_release_after
               | Some r \<Rightarrow> parse_duration cfg r) of
           Inl e \<Rightarrow> Inl e
         | Inr release \<Rightarrow>
             (case (case rq_deadline req of
                      None \<Rightarrow> Inr ()
                    | Some d \<Rightarrow>
                        (case parse_datetime cfg d of
                           Inl e \<Rightarrow> Inl e
                         | Inr deadline \<Rightarrow>
                             if deadline < estimated_completion
                             then Inl (InvalidRequest (''Processing likely to exceed deadline of '' @ d))
                             else Inr ())) of
                Inl e \<Rightarrow> Inl e
              | Inr _ \<Rightarrow>
                  Inr \<lparr>action_id = [], a_status = ''ACTIVE'', manage_by = manage, monitor_by = monitor,
                       creator_id = effective_identity auth,
                       release_after = duration_isoformat cfg release,
                       request_id = rq_request_id req, a_label = rq_label req,
                       a_details = None\<rparr>))"

definition run_new ::
  "api_env \<Rightarrow> dynamo_env \<Rightarrow> api_state \<Rightarrow> run_request \<Rightarrow> auth_state
     \<Rightarrow> ((error + response) \<times> api_state) option" where
  "run_new cfg env st req auth =
     (case build_job cfg auth req of
        Inl e \<Rightarrow> Some (Inl e, st)
      | Inr job0 \<Rightarrow>
          (case create_action_status env (st_store st) job0 of
             None \<Rightarrow> None
           | Some (Inl e, s) \<Rightarrow> Some (Inl e, st\<lparr>st_store := s\<rparr>)
           | Some (Inr job, s) \<Rightarrow>
               (case start_action cfg (action_id job) (rq_body req) of
                  Inl e \<Rightarrow> Some (Inl e, st\<lparr>st_store := s\<rparr>)
                | Inr p \<Rightarrow>
                    (case translate_status job of
                       Inl e \<Rightarrow> Some (Inl e, \<lparr>st_store = s, st_spawned = st_spawned st @ [p]\<rparr>)
                     | Inr res \<Rightarrow>
                         Some (Inr \<lparr>status_code = 202, json = res\<rparr>,
                               \<lparr>st_store = s, st_spawned = st_spawned st @ [p]\<rparr>)))))"

definition run_found :: "action \<Rightarrow> error + response" where
  "run_found status =
     (case translate_status status of
        Inl e \<Rightarrow> Inl e
      | Inr res \<Rightarrow> Inr \<lparr>status_code = 200, json = res\<rparr>)"

definition run ::
  "api_env \<Rightarrow> dynamo_env \<Rightarrow> api_state \<Rightarrow> run_request \<Rightarrow> auth_state
     \<Rightarrow> ((error + response) \<times> api_state) option" where
  "run cfg env st req auth =
     (case run_lookup cfg env st req of
        Inl e \<Rightarrow> Some (Inl e, st)
      | Inr None \<Rightarrow> run_new cfg env st req auth
      | Inr (Some status) \<Rightarrow> Some (run_found status, st))"

text \<open>\<^verbatim>\<open>status\<close>, \<^verbatim>\<open>cancel\<close> and \<^verbatim>\<open>release\<close>; \<^verbatim>\<open>cancel_action\<close> does nothing.\<close>

definition status :: "dynamo_env \<Rightarrow> action list \<Rightarrow> auth_state \<Rightarrow> string \<Rightarrow> error + action" where
  "status env tbl auth aid =
     (case read_action_status env tbl aid of
        Inl e \<Rightarrow> Inl e
      | Inr st \<Rightarrow>
          if \<not> check_authorization auth (monitor_by st) False
          then Inl (NotAuthorized (''You cannot view the status of action '' @ aid))
          else translate_status st)"

definition cancel :: "dynamo_env \<Rightarrow> action list \<Rightarrow> auth_state \<Rightarrow> string \<Rightarrow> error + action" where
  "cancel env tbl auth aid =
     (case read_action_status env tbl aid of
        Inl e \<Rightarrow> Inl e
      | Inr st \<Rightarrow>
          if \<not> check_authorization auth (manage_by st) False
          then Inl (NotAuthorized (''You cannot cancel action '' @ aid))
          else (case translate_status st of
                  Inl e \<Rightarrow> Inl e
                | Inr clean_status \<Rightarrow>
                    if a_status clean_status \<in> set [''SUCCEEDED'', ''FAILED'']
                    then Inl (InvalidState (''Action '' @ aid @ '' already completed''))
                    else (case read_action_status env tbl aid of
                            Inl e \<Rightarrow> Inl e
                          | Inr new_status \<Rightarrow> translate_status new_status)))"

definition release ::
  "dynamo_env \<Rightarrow> action list \<Rightarrow> auth_state \<Rightarrow> string \<Rightarrow> (error + action) \<times> action list" where
  "release env tbl auth aid =
     (case read_action_status env tbl aid of
        Inl e \<Rightarrow> (Inl e, tbl)
      | Inr st \<Rightarrow>
          if \<not> check_authorization auth (manage_by st) False
          then (Inl (NotAuthorized (''You cannot cancel action '' @ aid)), tbl)
          else (case translate_status st of
                  Inl e \<Rightarrow> (Inl e, tbl)
                | Inr clean_status \<Rightarrow>
                    if a_status clean_status \<in> set [''ACTIVE'', ''INACTIVE'']
                    then (Inl (InvalidState (''Action '' @ aid
                                 @ '' not completed and cannot be released'')), tbl)
                    else (case delete_action_status env tbl aid of
                            (Inl e, tbl') \<Rightarrow> (Inl e, tbl')
                          | (Inr _, tbl') \<Rightarrow> (Inr clean_status, tbl'))))"

section \<open>The asynchronous actions (api.py: action\_restore, action\_ingest)\<close>

text \<open>\<^verbatim>\<open>str(e)\<close> for an exception.\<close>

definition err_text :: "error \<Rightarrow> string" where
  "err_text e =
     (case e of
        InvalidRequest m \<Rightarrow> m | NotAuthorized m \<Rightarrow> m | NotFound m \<Rightarrow> m | InvalidState m \<Rightarrow> m
      | ServiceError m \<Rightarrow> m | InternalError m \<Rightarrow> m | ValueError m \<Rightarrow> m | IndexError m \<Rightarrow> m
      | KeyError m \<Rightarrow> m | TypeError m \<Rightarrow> m)"

text \<open>
  What a write to \<^verbatim>\<open>ERROR.log\<close> records: the action, the error of the status update,
  and the error (or the successful catalog) it came after.
\<close>

datatype log_entry =
    AfterError string error error
  | AfterSuccess string error string

record exec_state =
  x_table :: "action list"
  x_error_log :: "log_entry option"
  x_removed :: "string list"

text \<open>
  The handler every stage repeats: write the \<^verbatim>\<open>FAILED\<close> status, and if that write
  raises, write \<^verbatim>\<open>ERROR.log\<close> instead.
\<close>

definition failed_status :: "string \<Rightarrow> updates" where
  "failed_status text =
     \<lparr>u_status = Some ''FAILED'', u_details = Some (no_details\<lparr>d_error := Some (ErrText text)\<rparr>)\<rparr>"

definition report_failure ::
  "dynamo_env \<Rightarrow> exec_state \<Rightarrow> string \<Rightarrow> string \<Rightarrow> error \<Rightarrow> exec_state" where
  "report_failure env xs aid text e =
     (case update_action_status env (x_table xs) aid (failed_status text) of
        Inl e2 \<Rightarrow> xs\<lparr>x_error_log := Some (AfterError aid e2 e)\<rparr>
      | Inr (_, tbl) \<Rightarrow> xs\<lparr>x_table := tbl\<rparr>)"

definition report_success ::
  "dynamo_env \<Rightarrow> exec_state \<Rightarrow> string \<Rightarrow> updates \<Rightarrow> string \<Rightarrow> exec_state" where
  "report_success env xs aid st catalog =
     (case update_action_status env (x_table xs) aid st of
        Inl e \<Rightarrow> xs\<lparr>x_error_log := Some (AfterSuccess aid e catalog)\<rparr>
      | Inr (_, tbl) \<Rightarrow> xs\<lparr>x_table := tbl\<rparr>)"

subsection \<open>Restore\<close>

text \<open>
  The \<^verbatim>\<open>try\<close> block that reads the restore tool's output (\<^verbatim>\<open>stderr + stdout\<close>): the
  result is \<^verbatim>\<open>deriva_id\<close> and \<^verbatim>\<open>deriva_samples\<close>. The text of the first
  \<^verbatim>\<open>ValueError\<close> is given with the output itself where Python prints its \<^verbatim>\<open>repr\<close>.
\<close>

definition parse_restore_output :: "string \<Rightarrow> string \<Rightarrow> error + (int \<times> string)" where
  "parse_restore_output server restore_message =
     (if \<not> sublist ''completed successfully'' restore_message
      then Inl (ValueError (''DERIVA restore failed: '' @ restore_message))
      else (case last_item (py_split restore_message ''Restore of catalog'') of
              Inl e \<Rightarrow> Inl e
            | Inr after \<Rightarrow>
                (case first_item (py_split after ''completed successfully'') of
                   Inl e \<Rightarrow> Inl e
                 | Inr before \<Rightarrow>
                     (let deriva_link = py_strip before
                      in case last_item (py_split deriva_link ''/'') of
                           Inl e \<Rightarrow> Inl e
                         | Inr seg \<Rightarrow>
                             (case py_int seg of
                                Inl e \<Rightarrow> Inl e
                              | Inr deriva_id \<Rightarrow>
                                  Inr (deriva_id,
                                       ''https://'' @ server @ ''/chaise/recordset/#''
                                       @ str_int deriva_id @ ''/demo:Samples''))))))"

text \<open>
  What \<^verbatim>\<open>action_restore\<close> takes from outside: the configuration values, the download
  (\<^verbatim>\<open>requests.get\<close> and the write of the file) and the run of \<^verbatim>\<open>deriva-restore-cli\<close>,
  which returns \<^verbatim>\<open>stderr\<close> and \<^verbatim>\<open>stdout\<close>. \<^verbatim>\<open>subprocess.run\<close> raises
  \<^verbatim>\<open>TypeError\<close> on an argument that is not a string. The token is read before the first
  \<^verbatim>\<open>try\<close>; the model takes it as given.
\<close>

record restore_env =
  r_default_server_name :: string
  r_data_dir :: string
  r_download :: "string \<Rightarrow> string \<Rightarrow> error + unit"
  r_subprocess_run :: "string list \<Rightarrow> error + (string \<times> string)"

definition subprocess_run :: "restore_env \<Rightarrow> catid list \<Rightarrow> error + (string \<times> string)" where
  "subprocess_run cfg args =
     (if list_ex (\<lambda>a. case a of CInt _ \<Rightarrow> True | CStr _ \<Rightarrow> False) args
      then Inl (TypeError ''expected str, bytes or os.PathLike object, not int'')
      else r_subprocess_run cfg (map str_catid args))"

definition action_restore ::
  "restore_env \<Rightarrow> dynamo_env \<Rightarrow> exec_state \<Rightarrow> string \<Rightarrow> string \<Rightarrow> string \<Rightarrow> string option
     \<Rightarrow> catid option \<Rightarrow> exec_state" where
  "action_restore cfg env xs token aid url server0 catalog =
     (let server = (if falsy_str server0 then r_default_server_name cfg
                    else (case server0 of None \<Rightarrow> [] | Some s \<Rightarrow> s));
          file_path = os_path_join (r_data_dir cfg) ''cfde-backup.zip''
      in case r_download cfg url file_path of
           Inl e \<Rightarrow>
             report_failure env xs aid
               (''Unable to download URL '' @ [CHR 0x27] @ url @ [CHR 0x27] @ '': '' @ err_text e) e
         | Inr _ \<Rightarrow>
             (let restore_args =
                    [CStr ''deriva-restore-cli'', CStr ''--oauth2-token'', CStr token]
                    @ (case catalog of None \<Rightarrow> [] | Some c \<Rightarrow> [CStr ''--catalog'', c])
                    @ [CStr server, CStr file_path]
              in case subprocess_run cfg restore_args of
                   Inl e \<Rightarrow>
                     report_failure env xs aid (''Unable to run restore script: '' @ err_text e) e
                 | Inr (stderr, stdout) \<Rightarrow>
                     (case parse_restore_output server (stderr @ stdout) of
                        Inl e \<Rightarrow>
                          report_failure env xs aid
                            (''Restore script output parsing failed: '' @ err_text e) e
                      | Inr (deriva_id, deriva_samples) \<Rightarrow>
                          report_success env xs aid
                            \<lparr>u_status = Some ''SUCCEEDED'',
                             u_details = Some \<lparr>d_message = Some ''DERIVA restore successful'',
                                               d_error = Some ErrFalse,
                                               d_deriva_id = Some (IdInt deriva_id),
                                               d_deriva_link = None,
                                               d_deriva_samples_link = Some deriva_samples\<rparr>\<rparr>
                            (str_int deriva_id))))"

subsection \<open>Ingest\<close>

text \<open>The dictionary \<^verbatim>\<open>actions.deriva_ingest\<close> returns.\<close>

record ingest_res =
  ir_success :: bool
  ir_error :: "string option"
  ir_catalog_id :: "catid option"

text \<open>
  What \<^verbatim>\<open>action_ingest\<close> takes from outside: the configuration values,
  \<^verbatim>\<open>utils.download_data\<close>, \<^verbatim>\<open>os.listdir\<close> and \<^verbatim>\<open>actions.deriva_ingest\<close>. With the
  configuration given, the set-up block cannot raise.
\<close>

record ingest_env =
  i_default_server_name :: string
  i_data_dir :: string
  i_default_acls :: acls
  i_deriva_schema_name :: string
  i_download_data :: "string \<Rightarrow> string \<Rightarrow> error + string"
  i_listdir :: "string \<Rightarrow> error + string list"
  i_deriva_ingest :: "string \<Rightarrow> string \<Rightarrow> catid option \<Rightarrow> acls \<Rightarrow> error + ingest_res"

text \<open>
  The block that finds the schema file: the first entry of the directory listing whose name
  ends in \<^verbatim>\<open>.json\<close> and does not start with a dot.
\<close>

definition schema_candidates :: "string list \<Rightarrow> string list" where
  "schema_candidates names = filter (\<lambda>filename. suffix ''.json'' filename \<and> \<not> prefix ''.'' filename) names"

definition find_schema_file :: "ingest_env \<Rightarrow> string \<Rightarrow> error + string" where
  "find_schema_file cfg bag_data_path =
     (case i_listdir cfg bag_data_path of
        Inl e \<Rightarrow> Inl e
      | Inr names \<Rightarrow>
          (case first_item (schema_candidates names) of
             Inl e \<Rightarrow> Inl e
           | Inr schema_file \<Rightarrow> Inr (os_path_join bag_data_path schema_file)))"

text \<open>
  The schema file's name in the error text: the name found, or \<^verbatim>\<open>File not found\<close> when
  the assignment did not happen.
\<close>

definition action_ingest ::
  "ingest_env \<Rightarrow> dynamo_env \<Rightarrow> exec_state \<Rightarrow> string \<Rightarrow> string \<Rightarrow> string option \<Rightarrow> catid option
     \<Rightarrow> acls option \<Rightarrow> exec_state" where
  "action_ingest cfg env xs aid url servername0 catalog_id0 acls0 =
     (let servername = (if falsy_str servername0 then i_default_server_name cfg
                        else (case servername0 of None \<Rightarrow> [] | Some s \<Rightarrow> s));
          acls = (case acls0 of None \<Rightarrow> i_default_acls cfg | Some a \<Rightarrow> a);
          data_dir = os_path_join (i_data_dir cfg) (aid @ ''/'')
      in case i_download_data cfg url data_dir of
           Inl e \<Rightarrow>
             report_failure env xs aid
               (''Unable to download URL '' @ [CHR 0x27] @ url @ [CHR 0x27] @ '': '' @ err_text e) e
         | Inr bag_path \<Rightarrow>
             (let bag_data_path = os_path_join bag_path ''data''
              in case find_schema_file cfg bag_data_path of
                   Inl e \<Rightarrow>
                     report_failure env xs aid
                       (''Could not process TableSchema file '' @ [CHR 0x27] @ ''File not found''
                        @ [CHR 0x27] @ '': '' @ err_text e) e
                 | Inr schema_file_path \<Rightarrow>
                     (let schema_name = i_deriva_schema_name cfg;
                          ingested =
                            (case i_deriva_ingest cfg servername schema_file_path catalog_id0 acls of
                               Inl e \<Rightarrow> Inl (Inl e)
                             | Inr ingest_res \<Rightarrow>
                                 if \<not> ir_success ingest_res
                                 then (case update_action_status env (x_table xs) aid
                                              (failed_status (''Unable to ingest to DERIVA: ''
                                                 @ (case ir_error ingest_res of None \<Rightarrow> ''None'' | Some t \<Rightarrow> t))) of
                                         Inl e \<Rightarrow> Inl (Inl e)
                                       | Inr (_, tbl) \<Rightarrow> Inl (Inr tbl))
                                 else (case ir_catalog_id ingest_res of
                                         None \<Rightarrow> Inl (Inl (KeyError ''catalog_id''))
                                       | Some c \<Rightarrow> Inr c))
                      in case ingested of
                           Inl (Inl e) \<Rightarrow>
                             report_failure env xs aid (''Error ingesting to DERIVA: '' @ err_text e) e
                         | Inl (Inr tbl) \<Rightarrow> xs\<lparr>x_table := tbl\<rparr>
                         | Inr catalog_id \<Rightarrow>
                             (let xs' = report_success env xs aid
                                          \<lparr>u_status = Some ''SUCCEEDED'',
                                           u_details = Some \<lparr>d_message = Some ''DERIVA ingest successful'',
                                                             d_error = Some ErrFalse,
                                                             d_deriva_id = Some (idval_of catalog_id),
                                                             d_deriva_link =
                                                               Some (''https://'' @ servername
                                                                     @ ''/chaise/recordset/#''
                                                                     @ str_catid catalog_id @ ''/''
                                                                     @ schema_name @ '':project''),
                                                             d_deriva_samples_link = None\<rparr>\<rparr>
                                          (str_catid catalog_id)
                              in xs'\<lparr>x_removed := x_removed xs' @ [data_dir]\<rparr>))))"

section \<open>The key constraints as the specification words them\<close>



section \<open>The parts of a text that the restore parser reads, in words\<close>

text \<open>
  The text before the first occurrence of \<^verbatim>\<open>sep\<close> in a text (the whole text when
  \<^verbatim>\<open>sep\<close> does not occur), and the text after its last occurrence (again the whole
  text when it does not occur). Both are written without reference to \<^verbatim>\<open>split\<close>.
\<close>

fun text_before_first :: "string \<Rightarrow> string \<Rightarrow> string" where
  "text_before_first sep [] = []"
| "text_before_first sep (c # cs) =
     (if prefix sep (c # cs) then [] else c # text_before_first sep cs)"

fun text_after_last :: "string \<Rightarrow> string \<Rightarrow> string" where
  "text_after_last sep [] = []"
| "text_after_last sep (c # cs) =
     (if sublist sep cs then text_after_last sep cs
      else if prefix sep (c # cs) then drop (length sep) (c # cs)
      else c # cs)"

section \<open>Example data\<close>

text \<open>A store that answers every call, and one that refuses to delete.\<close>

definition healthy :: dynamo_env where
  "healthy = \<lparr>table_state = TableActive, get_item_error = None, put_item_error = None,
              delete_item_error = None, scan_http_status = 200, scan_page = 2\<rparr>"

definition refusing_delete :: dynamo_env where
  "refusing_delete = healthy\<lparr>delete_item_error := Some ''ProvisionedThroughputExceededException''\<rparr>"

text \<open>A finished Action as the store returns it, owned by alice and watched by bob.\<close>

definition finished_action :: action where
  "finished_action =
     \<lparr>action_id = ''a1'', a_status = ''SUCCEEDED'', manage_by = [''alice''], monitor_by = [''bob''],
      creator_id = ''alice'', release_after = ''P30D'', request_id = ''r1'', a_label = None,
      a_details = Some (no_details\<lparr>d_message := Some ''DERIVA restore successful'',
                                   d_error := Some ErrFalse,
                                   d_deriva_id := Some (IdDecimal 42)\<rparr>)\<rparr>"

definition alice :: auth_state where
  "alice = \<lparr>identities = [''alice''], effective_identity = ''alice''\<rparr>"

definition bob :: auth_state where
  "bob = \<lparr>identities = [''bob''], effective_identity = ''bob''\<rparr>"

definition carol :: auth_state where
  "carol = \<lparr>identities = [''carol''], effective_identity = ''carol''\<rparr>"

text \<open>Three records, two of them with the same request identifier.\<close>

definition three_records :: "action list" where
  "three_records =
     [finished_action,
      finished_action\<lparr>action_id := ''a2'', request_id := ''r2''\<rparr>,
      finished_action\<lparr>action_id := ''a3''\<rparr>]"





text \<open>
  An Action that has just been created, and two unpacked bags: one whose data directory
  holds two schema files, of which the ingest accepts only the first, and one that holds
  none.
\<close>

definition active_action :: action where
  "active_action =
     \<lparr>action_id = ''a1'', a_status = ''ACTIVE'', manage_by = [''alice''], monitor_by = [''bob''],
      creator_id = ''alice'', release_after = ''P30D'', request_id = ''r1'', a_label = None,
      a_details = Some (no_details\<lparr>d_message := Some ''Action started''\<rparr>)\<rparr>"

definition start_state :: exec_state where
  "start_state = \<lparr>x_table = [active_action], x_error_log = None, x_removed = []\<rparr>"

definition download_to_bag :: "string \<Rightarrow> string \<Rightarrow> error + string" where
  "download_to_bag url data_dir = Inr (data_dir @ ''bag'')"

definition list_two :: "string \<Rightarrow> error + string list" where
  "list_two path = Inr [''a.json'', ''b.json'']"

definition list_none :: "string \<Rightarrow> error + string list" where
  "list_none path = Inr [''readme.txt'', ''.hidden.json'']"

definition ingest_only_a :: "string \<Rightarrow> string \<Rightarrow> catid option \<Rightarrow> acls \<Rightarrow> error + ingest_res" where
  "ingest_only_a servername path catalog_id acls =
     (if path = ''/data/a1/bag/data/a.json''
      then Inr \<lparr>ir_success = True, ir_error = None, ir_catalog_id = Some (CInt 7)\<rparr>
      else Inl (ValueError path))"

definition bag_with_two :: ingest_env where
  "bag_with_two =
     \<lparr>i_default_server_name = ''demo.derivacloud.org'', i_data_dir = ''/data'',
      i_default_acls = [], i_deriva_schema_name = ''demo'',
      i_download_data = download_to_bag, i_listdir = list_two, i_deriva_ingest = ingest_only_a\<rparr>"

definition bag_with_none :: ingest_env where
  "bag_with_none = bag_with_two\<lparr>i_listdir := list_none\<rparr>"

text \<open>
  A configuration whose input schema accepts every body, an ingest request with the request
  identifier \<^verbatim>\<open>r1\<close>, the same request without its \<^verbatim>\<open>data_url\<close>, and two states of
  the service: one that holds the finished Action of \<^verbatim>\<open>r1\<close>, and an empty one.
\<close>

definition accept_all :: "body \<Rightarrow> string option" where
  "accept_all b = None"

definition no_parse :: "string \<Rightarrow> error + int" where
  "no_parse s = Inl (ValueError s)"

definition iso_days :: "int \<Rightarrow> string" where
  "iso_days secs = ''P'' @ str_int (secs div 86400) @ ''D''"

definition open_api :: api_env where
  "open_api = \<lparr>schema_error = accept_all, known_catalogs = [], now = 0, parse_duration = no_parse,
               parse_datetime = no_parse, duration_isoformat = iso_days\<rparr>"

definition ingest_body :: body where
  "ingest_body = \<lparr>b_operation = Some ''ingest'', b_data_url = Some ''https://example.org/bag.zip'',
                  b_catalog_id = None, b_catalog_acls = None, b_server = None\<rparr>"

definition submit_r1 :: run_request where
  "submit_r1 = \<lparr>rq_body = ingest_body, rq_request_id = ''r1'', rq_label = None, rq_manage_by = None,
                rq_monitor_by = None, rq_release_after = None, rq_deadline = None\<rparr>"

definition replay_without_url :: run_request where
  "replay_without_url = submit_r1\<lparr>rq_body := ingest_body\<lparr>b_data_url := None\<rparr>\<rparr>"

definition holding_r1 :: api_state where
  "holding_r1 = \<lparr>st_store = \<lparr>s_table = [finished_action], s_ids = [''id1'']\<rparr>, st_spawned = []\<rparr>"

definition empty_state :: api_state where
  "empty_state = \<lparr>st_store = \<lparr>s_table = [], s_ids = [''id1'', ''id2'']\<rparr>, st_spawned = []\<rparr>"

text \<open>
  The Actions and the states of two submits of \<^verbatim>\<open>r1\<close>, by alice and then by bob, that
  both found nothing in the empty state; and a store whose conditional put fails.
\<close>

definition job_alice :: action where
  "job_alice =
     \<lparr>action_id = ''id1'', a_status = ''ACTIVE'', manage_by = [''alice''], monitor_by = [''alice''],
      creator_id = ''alice'', release_after = ''P30D'', request_id = ''r1'', a_label = None,
      a_details = Some (no_details\<lparr>d_message := Some ''Action started''\<rparr>)\<rparr>"

definition job_bob :: action where
  "job_bob =
     \<lparr>action_id = ''id2'', a_status = ''ACTIVE'', manage_by = [''bob''], monitor_by = [''bob''],
      creator_id = ''bob'', release_after = ''P30D'', request_id = ''r1'', a_label = None,
      a_details = Some (no_details\<lparr>d_message := Some ''Action started''\<rparr>)\<rparr>"

definition after_first :: api_state where
  "after_first =
     \<lparr>st_store = \<lparr>s_table = [job_alice], s_ids = [''id2'']\<rparr>,
      st_spawned = [Ingest ''id1'' ''https://example.org/bag.zip'' None None None]\<rparr>"

definition after_second :: api_state where
  "after_second =
     \<lparr>st_store = \<lparr>s_table = [job_alice, job_bob], s_ids = []\<rparr>,
      st_spawned = [Ingest ''id1'' ''https://example.org/bag.zip'' None None None,
                    Ingest ''id2'' ''https://example.org/bag.zip'' None None None]\<rparr>"

definition failing_put :: dynamo_env where
  "failing_put = healthy\<lparr>put_item_error := Some ''ConditionalCheckFailedException''\<rparr>"

section \<open>Type mapping\<close>

text \<open>
  C4. \<^verbatim>\<open>make_type\<close> succeeds exactly on the five literals \<^verbatim>\<open>string\<close>, \<^verbatim>\<open>datetime\<close>,
  \<^verbatim>\<open>integer\<close>, \<^verbatim>\<open>number\<close>, \<^verbatim>\<open>list\<close>, which it maps to text, timestamptz, int8, float8
  and the text array; on every other literal it raises the error (a \<^verbatim>\<open>ValueError\<close>) whose
  text is \<^verbatim>\<open>Mapping undefined for type '<literal>'\<close>, so the text contains the literal;
  there is no fallback type.
\<close>

theorem make_type_total_on_five:
  "make_type ''string'' = Inr BT_text \<and>
   make_type ''datetime'' = Inr BT_timestamptz \<and>
   make_type ''integer'' = Inr BT_int8 \<and>
   make_type ''number'' = Inr BT_float8 \<and>
   make_type ''list'' = Inr BT_text_array \<and>
   ((\<exists>ty. make_type t = Inr ty) = (t \<in> {''string'', ''datetime'', ''integer'', ''number'', ''list''})) \<and>
   (t \<notin> {''string'', ''datetime'', ''integer'', ''number'', ''list''} \<longrightarrow>
      make_type t = Inl (ValueError (''Mapping undefined for type '' @ [CHR 0x27] @ t @ [CHR 0x27])) \<and>
      sublist t (''Mapping undefined for type '' @ [CHR 0x27] @ t @ [CHR 0x27]))"
proof -
  have "sublist t ((''Mapping undefined for type '' @ [CHR 0x27]) @ t @ [CHR 0x27])"
    by (rule sublist_appendI)
  then have "sublist t (''Mapping undefined for type '' @ [CHR 0x27] @ t @ [CHR 0x27])"
    by simp
  then show ?thesis
    by (simp add: make_type_def)
qed

theorem make_type_total_on_five_witness:
  "''object'' \<notin> {''string'', ''datetime'', ''integer'', ''number'', ''list''} \<and>
   make_type ''object'' =
     Inl (ValueError (''Mapping undefined for type '' @ [CHR 0x27] @ ''object'' @ [CHR 0x27])) \<and>
   sublist ''object'' (''Mapping undefined for type '' @ [CHR 0x27] @ ''object'' @ [CHR 0x27]) \<and>
   \<not> (\<exists>ty. make_type ''object'' = Inr ty)"
  using make_type_total_on_five [of "''object''"] by simp

section \<open>Helper facts about the store\<close>

lemma read_action_status_table_active:
  "read_action_status env tbl aid = Inr entry \<Longrightarrow> get_dmo_table env = Inr ()"
  by (auto simp: read_action_status_def split: sum.splits)

lemma read_action_status_found:
  "read_action_status env tbl aid = Inr entry \<Longrightarrow>
     get_item_error env = None \<and> find (\<lambda>a. action_id a = aid) tbl = Some entry"
  by (auto simp: read_action_status_def split: sum.splits option.splits)

section \<open>Deletion\<close>

text \<open>
  C10. When the record exists and the store's \<^verbatim>\<open>delete_item\<close> raises,
  \<^verbatim>\<open>delete_action_status\<close> does not raise \<^verbatim>\<open>ServiceError\<close>: the verification read
  finds the record, the call raises \<^verbatim>\<open>InternalError\<close>, and the table is as it was.
\<close>

theorem delete_failure_gives_internal_error:
  assumes "read_action_status env tbl aid = Inr entry"
    and "delete_item_error env = Some m"
  shows "delete_action_status env tbl aid =
           (Inl (InternalError ''Action status was not deleted.''), tbl)
         \<and> read_action_status env tbl aid = Inr entry
         \<and> fst (delete_action_status env tbl aid) \<noteq> Inl (ServiceError m)"
proof -
  have active: "get_dmo_table env = Inr ()"
    using assms(1) by (rule read_action_status_table_active)
  have kept: "delete_item env tbl aid = Inl m"
    using assms(2) by (simp add: delete_item_def)
  have "delete_action_status env tbl aid =
          (Inl (InternalError ''Action status was not deleted.''), tbl)"
    using assms(1) active kept by (simp add: delete_action_status_def)
  then show ?thesis
    using assms(1) by simp
qed

theorem delete_failure_gives_internal_error_witness:
  "read_action_status refusing_delete [finished_action] ''a1'' = Inr finished_action
   \<and> delete_item_error refusing_delete = Some ''ProvisionedThroughputExceededException''
   \<and> delete_action_status refusing_delete [finished_action] ''a1'' =
       (Inl (InternalError ''Action status was not deleted.''), [finished_action])"
proof -
  have r: "read_action_status refusing_delete [finished_action] ''a1'' = Inr finished_action"
    by (simp add: read_action_status_def get_dmo_table_def refusing_delete_def healthy_def
        finished_action_def)
  have d: "delete_item_error refusing_delete = Some ''ProvisionedThroughputExceededException''"
    by (simp add: refusing_delete_def healthy_def)
  show ?thesis
    using delete_failure_gives_internal_error [OF r d] r d by simp
qed

section \<open>Translation of a status\<close>

text \<open>
  C9 (the code against the claim). A stored catalog identifier comes back from the store as
  a \<^verbatim>\<open>Decimal\<close>. \<^verbatim>\<open>translate_status\<close> converts it only when it is true as a Python
  value, so the identifier zero stays a \<^verbatim>\<open>Decimal\<close> in the status returned to the caller;
  every other \<^verbatim>\<open>Decimal\<close> becomes a plain integer.
\<close>

theorem translate_status_keeps_decimal_zero:
  "translate_status (raw\<lparr>a_details := Some (d\<lparr>d_deriva_id := Some (IdDecimal 0)\<rparr>)\<rparr>)
     = Inr (raw\<lparr>a_details := Some (d\<lparr>d_deriva_id := Some (IdDecimal 0)\<rparr>)\<rparr>)"
  by (simp add: translate_status_def truthy_id_def)

lemma status_returns_decimal_zero:
  "status healthy
     [finished_action\<lparr>a_details := Some (no_details\<lparr>d_deriva_id := Some (IdDecimal 0)\<rparr>)\<rparr>]
     bob ''a1''
   = Inr (finished_action\<lparr>a_details := Some (no_details\<lparr>d_deriva_id := Some (IdDecimal 0)\<rparr>)\<rparr>)"
  by (simp add: translate_status_def truthy_id_def status_def read_action_status_def
      get_dmo_table_def healthy_def finished_action_def bob_def check_authorization_def)

lemma translate_status_converts_nonzero_decimal:
  "r \<noteq> 0 \<Longrightarrow>
   translate_status (raw\<lparr>a_details := Some (d\<lparr>d_deriva_id := Some (IdDecimal r)\<rparr>)\<rparr>)
     = Inr (raw\<lparr>a_details := Some (d\<lparr>d_deriva_id := Some (IdInt (if r < 0 then \<lceil>r\<rceil> else \<lfloor>r\<rfloor>))\<rparr>)\<rparr>)"
  by (simp add: translate_status_def truthy_id_def int_of_id_def)

section \<open>Authorization of status, cancel and release\<close>

lemma check_authorization_plain:
  "check_authorization auth allowed False = (set (identities auth) \<inter> set allowed \<noteq> {})"
  by (auto simp: check_authorization_def)

lemma py_int_error: "py_int s = Inl e \<Longrightarrow> e = ValueError s"
  by (auto simp: py_int_def Let_def split: option.splits list.splits if_splits)

lemma int_of_id_error: "int_of_id v = Inl e \<Longrightarrow> \<exists>s. e = ValueError s"
  by (cases v) (auto simp: int_of_id_def dest: py_int_error)

lemma translate_status_error: "translate_status st = Inl e \<Longrightarrow> \<exists>s. e = ValueError s"
  by (auto simp: translate_status_def split: option.splits if_splits sum.splits
      dest: int_of_id_error)

lemma read_action_status_error:
  "read_action_status env tbl aid = Inl e \<Longrightarrow> (\<exists>s. e = NotFound s) \<or> (\<exists>s. e = ServiceError s)"
  by (auto simp: read_action_status_def get_dmo_table_def
      split: sum.splits option.splits table_state.splits)

lemma delete_action_status_error:
  "fst (delete_action_status env tbl aid) = Inl e \<Longrightarrow>
     (\<exists>s. e = NotFound s) \<or> (\<exists>s. e = ServiceError s) \<or> (\<exists>s. e = InternalError s)"
proof -
  assume a: "fst (delete_action_status env tbl aid) = Inl e"
  show ?thesis
  proof (cases "read_action_status env tbl aid")
    case (Inl e1)
    with a have "e = e1" by (simp add: delete_action_status_def)
    with Inl show ?thesis using read_action_status_error by blast
  next
    case (Inr entry)
    then have active: "get_dmo_table env = Inr ()"
      by (rule read_action_status_table_active)
    define tbl' where "tbl' = (case delete_item env tbl aid of Inl m \<Rightarrow> tbl | Inr t \<Rightarrow> t)"
    show ?thesis
    proof (cases "read_action_status env tbl' aid")
      case (Inl e2)
      then have "(\<exists>s. e2 = NotFound s) \<or> (\<exists>s. e2 = ServiceError s)"
        by (rule read_action_status_error)
      with a Inr active Inl show ?thesis
        by (auto simp: delete_action_status_def tbl'_def [symmetric])
    next
      case (Inr still)
      with a \<open>read_action_status env tbl aid = Inr entry\<close> active show ?thesis
        by (auto simp: delete_action_status_def tbl'_def [symmetric])
    qed
  qed
qed

text \<open>
  C6. For an Action that the store returns: \<^verbatim>\<open>status\<close> raises \<^verbatim>\<open>NotAuthorized\<close> exactly
  when the caller's identities do not intersect \<^verbatim>\<open>monitor_by\<close>; \<^verbatim>\<open>cancel\<close> and
  \<^verbatim>\<open>release\<close> raise \<^verbatim>\<open>NotAuthorized\<close> exactly when the caller's identities do not
  intersect \<^verbatim>\<open>manage_by\<close>, whatever \<^verbatim>\<open>monitor_by\<close> holds, and a refused
  \<^verbatim>\<open>release\<close> leaves the table as it was.
\<close>

theorem not_authorized_iff_no_common_principal:
  assumes "read_action_status env tbl aid = Inr st"
  shows "((set (identities auth) \<inter> set (monitor_by st) = {}) =
            (status env tbl auth aid
               = Inl (NotAuthorized (''You cannot view the status of action '' @ aid))))
       \<and> ((set (identities auth) \<inter> set (monitor_by st) = {}) =
            (\<exists>m. status env tbl auth aid = Inl (NotAuthorized m)))
       \<and> ((set (identities auth) \<inter> set (manage_by st) = {}) =
            (cancel env tbl auth aid = Inl (NotAuthorized (''You cannot cancel action '' @ aid))))
       \<and> ((set (identities auth) \<inter> set (manage_by st) = {}) =
            (\<exists>m. cancel env tbl auth aid = Inl (NotAuthorized m)))
       \<and> ((set (identities auth) \<inter> set (manage_by st) = {}) =
            (release env tbl auth aid
               = (Inl (NotAuthorized (''You cannot cancel action '' @ aid)), tbl)))
       \<and> ((set (identities auth) \<inter> set (manage_by st) = {}) =
            (\<exists>m. fst (release env tbl auth aid) = Inl (NotAuthorized m)))"
proof -
  have s: "(\<exists>m. status env tbl auth aid = Inl (NotAuthorized m)) \<Longrightarrow>
             set (identities auth) \<inter> set (monitor_by st) = {}"
    using assms
    by (auto simp: status_def check_authorization_plain split: if_splits
        dest!: translate_status_error)
  have c: "(\<exists>m. cancel env tbl auth aid = Inl (NotAuthorized m)) \<Longrightarrow>
             set (identities auth) \<inter> set (manage_by st) = {}"
    using assms
    by (auto simp: cancel_def check_authorization_plain split: if_splits sum.splits
        dest!: translate_status_error)
  have r: "(\<exists>m. fst (release env tbl auth aid) = Inl (NotAuthorized m)) \<Longrightarrow>
             set (identities auth) \<inter> set (manage_by st) = {}"
  proof (rule ccontr)
    assume ex: "\<exists>m. fst (release env tbl auth aid) = Inl (NotAuthorized m)"
      and allowed: "set (identities auth) \<inter> set (manage_by st) \<noteq> {}"
    then obtain m where m: "fst (release env tbl auth aid) = Inl (NotAuthorized m)" by blast
    show False
    proof (cases "translate_status st")
      case (Inl e)
      then obtain t where "e = ValueError t" using translate_status_error by blast
      with m Inl allowed assms show False
        by (simp add: release_def check_authorization_plain)
    next
      case (Inr clean)
      show False
      proof (cases "a_status clean \<in> set [''ACTIVE'', ''INACTIVE'']")
        case True
        with m Inr allowed assms show False
          by (simp add: release_def check_authorization_plain)
      next
        case False
        with m Inr allowed assms
        have "fst (delete_action_status env tbl aid) = Inl (NotAuthorized m)"
          by (auto simp: release_def check_authorization_plain split: prod.splits sum.splits)
        then show False
          using delete_action_status_error by blast
      qed
    qed
  qed
  have s': "set (identities auth) \<inter> set (monitor_by st) = {} \<Longrightarrow>
              status env tbl auth aid
                = Inl (NotAuthorized (''You cannot view the status of action '' @ aid))"
    using assms by (simp add: status_def check_authorization_plain)
  have c': "set (identities auth) \<inter> set (manage_by st) = {} \<Longrightarrow>
              cancel env tbl auth aid = Inl (NotAuthorized (''You cannot cancel action '' @ aid))"
    using assms by (simp add: cancel_def check_authorization_plain)
  have r': "set (identities auth) \<inter> set (manage_by st) = {} \<Longrightarrow>
              release env tbl auth aid
                = (Inl (NotAuthorized (''You cannot cancel action '' @ aid)), tbl)"
    using assms by (simp add: release_def check_authorization_plain)
  show ?thesis
    using s c r s' c' r' by (metis fst_conv)
qed

text \<open>
  carol is in neither list and is refused three times; bob may watch and may not manage;
  alice may manage and may not watch.
\<close>

theorem not_authorized_iff_no_common_principal_witness:
  "read_action_status healthy [finished_action] ''a1'' = Inr finished_action
   \<and> status healthy [finished_action] carol ''a1''
       = Inl (NotAuthorized ''You cannot view the status of action a1'')
   \<and> cancel healthy [finished_action] carol ''a1'' = Inl (NotAuthorized ''You cannot cancel action a1'')
   \<and> release healthy [finished_action] carol ''a1''
       = (Inl (NotAuthorized ''You cannot cancel action a1''), [finished_action])
   \<and> release healthy [finished_action] bob ''a1''
       = (Inl (NotAuthorized ''You cannot cancel action a1''), [finished_action])
   \<and> \<not> (\<exists>m. status healthy [finished_action] bob ''a1'' = Inl (NotAuthorized m))
   \<and> \<not> (\<exists>m. fst (release healthy [finished_action] alice ''a1'') = Inl (NotAuthorized m))
   \<and> status healthy [finished_action] alice ''a1''
       = Inl (NotAuthorized ''You cannot view the status of action a1'')"
proof -
  have r: "read_action_status healthy [finished_action] ''a1'' = Inr finished_action"
    by (simp add: read_action_status_def get_dmo_table_def healthy_def finished_action_def)
  have ids: "identities carol = [''carol'']" "identities bob = [''bob'']"
    "identities alice = [''alice'']"
    by (simp_all add: carol_def bob_def alice_def)
  have lists: "monitor_by finished_action = [''bob'']" "manage_by finished_action = [''alice'']"
    by (simp_all add: finished_action_def)
  show ?thesis
    using r
      not_authorized_iff_no_common_principal [OF r, of carol]
      not_authorized_iff_no_common_principal [OF r, of bob]
      not_authorized_iff_no_common_principal [OF r, of alice]
    by (simp add: ids lists)
qed

section \<open>Lookup by request identifier\<close>

declare scan_loop.simps [simp del]

lemma scan_loop_collects:
  "scan_http_status env < 300 \<Longrightarrow>
   scan_loop env tbl rid start acc =
     Inr (acc @ filter (\<lambda>a. request_id a = rid) (drop (case start of None \<Rightarrow> 0 | Some k \<Rightarrow> k) tbl))"
proof (induction env tbl rid start acc rule: scan_loop.induct)
  case (1 env tbl rid start acc)
  define s where "s = (case start of None \<Rightarrow> 0 | Some k \<Rightarrow> k)"
  define n where "n = max 1 (scan_page env)"
  define page where "page = filter (\<lambda>a. request_id a = rid) (take n (drop s tbl))"
  have ok: "\<not> 300 \<le> http_status_code (scan env tbl rid start)"
    using "1.prems" by (simp add: scan_def Let_def)
  have items: "res_items (scan env tbl rid start) = page"
    by (simp add: scan_def Let_def page_def s_def n_def)
  show ?case
  proof (cases "s + n < length tbl")
    case True
    then have key: "last_evaluated_key (scan env tbl rid start) = Some (s + n)"
      by (simp add: scan_def Let_def s_def n_def)
    have rec: "scan_loop env tbl rid (Some (s + n)) (acc @ page) =
                 Inr ((acc @ page) @ filter (\<lambda>a. request_id a = rid) (drop (s + n) tbl))"
      using "1.IH" [OF refl ok refl key "1.prems"] items by simp
    have "take n (drop s tbl) @ drop (s + n) tbl = drop s tbl"
      by (metis add.commute append_take_drop_id drop_drop)
    then have "page @ filter (\<lambda>a. request_id a = rid) (drop (s + n) tbl)
                 = filter (\<lambda>a. request_id a = rid) (drop s tbl)"
      unfolding page_def by (metis filter_append)
    with rec have "scan_loop env tbl rid (Some (s + n)) (acc @ page) =
                     Inr (acc @ filter (\<lambda>a. request_id a = rid) (drop s tbl))"
      by simp
    then show ?thesis
      using ok items key
      by (subst scan_loop.simps) (simp add: Let_def s_def)
  next
    case False
    then have key: "last_evaluated_key (scan env tbl rid start) = None"
      by (simp add: scan_def Let_def s_def n_def)
    from False have "take n (drop s tbl) = drop s tbl"
      by simp
    then have "page = filter (\<lambda>a. request_id a = rid) (drop s tbl)"
      by (simp add: page_def)
    then show ?thesis
      using ok items key
      by (subst scan_loop.simps) (simp add: Let_def s_def)
  qed
qed

text \<open>
  C8. With the table active and the scan answering (HTTP status below 300), the lookup goes
  through every page and gives \<^verbatim>\<open>NotFound\<close> when no record has the request identifier,
  the record when exactly one has it, and \<^verbatim>\<open>InternalError\<close> when two or more have it,
  whatever the page size.
\<close>

theorem read_action_by_request_outcomes:
  assumes "table_state env = TableActive" and "scan_http_status env < 300"
  shows "read_action_by_request env tbl rid =
           (case filter (\<lambda>a. request_id a = rid) tbl of
              [] \<Rightarrow> Inl (NotFound (''Request ID '' @ [CHR 0x27] @ rid @ [CHR 0x27]
                                   @ '' not found in status database''))
            | [entry] \<Rightarrow> Inr entry
            | _ # _ # _ \<Rightarrow>
                Inl (InternalError (''Multiple entries found for request ID '' @ [CHR 0x27] @ rid
                                     @ [CHR 0x27] @ ''. Please report this error.'')))"
proof -
  have active: "get_dmo_table env = Inr ()"
    using assms(1) by (simp add: get_dmo_table_def)
  have loop: "scan_loop env tbl rid None [] = Inr (filter (\<lambda>a. request_id a = rid) tbl)"
    using scan_loop_collects [OF assms(2), of tbl rid None "[]"] by simp
  show ?thesis
  proof (cases "filter (\<lambda>a. request_id a = rid) tbl")
    case Nil
    with active loop show ?thesis
      by (simp add: read_action_by_request_def)
  next
    case (Cons x xs)
    with active loop show ?thesis
      by (cases xs) (simp_all add: read_action_by_request_def)
  qed
qed

text \<open>
  Three records on two pages: none for \<^verbatim>\<open>r0\<close>, one for \<^verbatim>\<open>r2\<close>, and two for
  \<^verbatim>\<open>r1\<close>, one on each page.
\<close>

theorem read_action_by_request_outcomes_witness:
  "table_state healthy = TableActive \<and> scan_http_status healthy < 300
   \<and> read_action_by_request healthy three_records ''r0''
       = Inl (NotFound (''Request ID '' @ [CHR 0x27] @ ''r0'' @ [CHR 0x27]
                        @ '' not found in status database''))
   \<and> read_action_by_request healthy three_records ''r2''
       = Inr (finished_action\<lparr>action_id := ''a2'', request_id := ''r2''\<rparr>)
   \<and> read_action_by_request healthy three_records ''r1''
       = Inl (InternalError (''Multiple entries found for request ID '' @ [CHR 0x27] @ ''r1''
                             @ [CHR 0x27] @ ''. Please report this error.''))"
proof -
  have a: "table_state healthy = TableActive" by (simp add: healthy_def)
  have b: "scan_http_status healthy < 300" by (simp add: healthy_def)
  show ?thesis
    using a b
      read_action_by_request_outcomes [OF a b, of three_records "''r0''"]
      read_action_by_request_outcomes [OF a b, of three_records "''r1''"]
      read_action_by_request_outcomes [OF a b, of three_records "''r2''"]
    by (simp add: three_records_def finished_action_def)
qed

section \<open>Key constraints of a compiled table\<close>



section \<open>The schema file of an ingest\<close>

lemma find_replaced:
  "find (\<lambda>a. action_id a = aid) tbl = Some old \<Longrightarrow> action_id new = aid \<Longrightarrow>
   find (\<lambda>a. action_id a = aid) (map (\<lambda>a. if action_id a = aid then new else a) tbl) = Some new"
  by (induction tbl) (auto split: if_splits)

lemma find_key: "find (\<lambda>a. action_id a = aid) tbl = Some old \<Longrightarrow> action_id old = aid"
  by (induction tbl) (auto split: if_splits)

lemma action_id_dict_merge: "action_id (dict_merge upd old) = action_id old"
  by (simp add: dict_merge_def)

lemma action_id_stored_item: "action_id (stored_item a) = action_id a"
  by (simp add: stored_item_def)

lemma update_action_status_ok:
  assumes "read_action_status env tbl aid = Inr old" and "put_item_error env = None"
  shows "update_action_status env tbl aid upd =
           Inr (dict_merge upd old,
                map (\<lambda>a. if action_id a = aid then stored_item (dict_merge upd old) else a) tbl)"
proof -
  have active: "get_dmo_table env = Inr ()"
    using assms(1) by (rule read_action_status_table_active)
  have found: "find (\<lambda>a. action_id a = aid) tbl = Some old"
    using assms(1) read_action_status_found by blast
  then have key: "action_id old = aid" by (rule find_key)
  have "has_key tbl (action_id (dict_merge upd old))"
    using found key by (simp add: has_key_def action_id_dict_merge)
  then have "put_item env tbl (dict_merge upd old) False =
          Inr (map (\<lambda>a. if action_id a = aid then stored_item (dict_merge upd old) else a) tbl)"
    using assms(2) key by (simp add: put_item_def action_id_dict_merge)
  then show ?thesis
    using assms(1) active by (simp add: update_action_status_def Let_def)
qed

lemma read_after_update:
  assumes "read_action_status env tbl aid = Inr old"
  shows "read_action_status env
           (map (\<lambda>a. if action_id a = aid then stored_item (dict_merge upd old) else a) tbl) aid
         = Inr (stored_item (dict_merge upd old))"
proof -
  have active: "get_dmo_table env = Inr ()"
    using assms by (rule read_action_status_table_active)
  have found: "get_item_error env = None \<and> find (\<lambda>a. action_id a = aid) tbl = Some old"
    using assms by (rule read_action_status_found)
  then have "action_id old = aid"
    using find_key by blast
  then have key: "action_id (stored_item (dict_merge upd old)) = aid"
    by (simp add: action_id_stored_item action_id_dict_merge)
  have "find (\<lambda>a. action_id a = aid)
          (map (\<lambda>a. if action_id a = aid then stored_item (dict_merge upd old) else a) tbl)
        = Some (stored_item (dict_merge upd old))"
    using found key by (blast intro: find_replaced)
  then show ?thesis
    using active found by (simp add: read_action_status_def)
qed

text \<open>
  C7 (as amended). After a download that worked and a directory listing that worked, the
  ingest locates a schema file exactly when the listing has at least one candidate (a name
  that ends in \<^verbatim>\<open>.json\<close> and does not start with a dot), and the file it takes is the
  first candidate of the listing. With no candidate the ingest stops, and, with the Action in
  a store that accepts the write, the Action's stored status is then \<^verbatim>\<open>FAILED\<close>.
\<close>

theorem ingest_takes_first_candidate:
  assumes "i_download_data cfg url (os_path_join (i_data_dir cfg) (aid @ ''/'')) = Inr bag_path"
    and "i_listdir cfg (os_path_join bag_path ''data'') = Inr names"
    and "read_action_status env (x_table xs) aid = Inr old"
    and "put_item_error env = None"
  shows "((\<exists>path. find_schema_file cfg (os_path_join bag_path ''data'') = Inr path)
            = (schema_candidates names \<noteq> []))
       \<and> (\<forall>f rest. schema_candidates names = f # rest \<longrightarrow>
             find_schema_file cfg (os_path_join bag_path ''data'')
               = Inr (os_path_join (os_path_join bag_path ''data'') f))
       \<and> (schema_candidates names = [] \<longrightarrow>
             (\<exists>st. read_action_status env
                      (x_table (action_ingest cfg env xs aid url servername catalog_id acls)) aid
                    = Inr st \<and> a_status st = ''FAILED'')
             \<and> x_removed (action_ingest cfg env xs aid url servername catalog_id acls) = x_removed xs)"
proof -
  let ?p = "os_path_join bag_path ''data''"
  have located: "find_schema_file cfg ?p =
                   (case schema_candidates names of
                      [] \<Rightarrow> Inl (IndexError ''list index out of range'')
                    | f # _ \<Rightarrow> Inr (os_path_join ?p f))"
    using assms(2) by (simp add: find_schema_file_def first_item_def split: list.splits)
  have one: "(\<exists>path. find_schema_file cfg ?p = Inr path) = (schema_candidates names \<noteq> [])"
    using located by (cases "schema_candidates names") simp_all
  have two: "\<forall>f rest. schema_candidates names = f # rest \<longrightarrow>
               find_schema_file cfg ?p = Inr (os_path_join ?p f)"
    using located by simp
  have three: "(\<exists>st. read_action_status env
                      (x_table (action_ingest cfg env xs aid url servername catalog_id acls)) aid
                    = Inr st \<and> a_status st = ''FAILED'')
             \<and> x_removed (action_ingest cfg env xs aid url servername catalog_id acls) = x_removed xs"
    if none: "schema_candidates names = []"
  proof -
    define msg where "msg = ''Could not process TableSchema file '' @ [CHR 0x27]
        @ ''File not found'' @ [CHR 0x27] @ '': '' @ err_text (IndexError ''list index out of range'')"
    define new where "new = stored_item (dict_merge (failed_status msg) old)"
    have run: "action_ingest cfg env xs aid url servername catalog_id acls =
                 report_failure env xs aid msg (IndexError ''list index out of range'')"
      using assms(1) located none by (simp add: action_ingest_def Let_def msg_def)
    have "report_failure env xs aid msg (IndexError ''list index out of range'') =
            xs\<lparr>x_table := map (\<lambda>a. if action_id a = aid then new else a) (x_table xs)\<rparr>"
      using update_action_status_ok [OF assms(3) assms(4), of "failed_status msg"]
      by (simp add: report_failure_def new_def)
    with run have result: "action_ingest cfg env xs aid url servername catalog_id acls =
            xs\<lparr>x_table := map (\<lambda>a. if action_id a = aid then new else a) (x_table xs)\<rparr>"
      by simp
    have "read_action_status env (map (\<lambda>a. if action_id a = aid then new else a) (x_table xs)) aid
            = Inr new"
      unfolding new_def using assms(3) by (rule read_after_update)
    moreover have "a_status new = ''FAILED''"
      by (simp add: new_def stored_item_def dict_merge_def failed_status_def)
    ultimately show ?thesis
      using result by simp
  qed
  show ?thesis
    using one two three by blast
qed

lemma candidates_two: "schema_candidates [''a.json'', ''b.json''] = [''a.json'', ''b.json'']"
  by (simp add: schema_candidates_def suffix_to_prefix)

lemma candidates_none: "schema_candidates [''readme.txt'', ''.hidden.json''] = []"
  by (simp add: schema_candidates_def suffix_to_prefix)

theorem ingest_takes_first_candidate_witness:
  "i_download_data bag_with_none ''https://example.org/bag.zip''
       (os_path_join (i_data_dir bag_with_none) (''a1'' @ ''/'')) = Inr ''/data/a1/bag''
   \<and> i_listdir bag_with_none (os_path_join ''/data/a1/bag'' ''data'')
       = Inr [''readme.txt'', ''.hidden.json'']
   \<and> read_action_status healthy (x_table start_state) ''a1'' = Inr active_action
   \<and> put_item_error healthy = None
   \<and> schema_candidates [''readme.txt'', ''.hidden.json''] = []
   \<and> (\<exists>st. read_action_status healthy
               (x_table (action_ingest bag_with_none healthy start_state ''a1''
                           ''https://example.org/bag.zip'' None None None)) ''a1'' = Inr st
            \<and> a_status st = ''FAILED'')
   \<and> i_listdir bag_with_two (os_path_join ''/data/a1/bag'' ''data'') = Inr [''a.json'', ''b.json'']
   \<and> find_schema_file bag_with_two (os_path_join ''/data/a1/bag'' ''data'')
       = Inr (os_path_join (os_path_join ''/data/a1/bag'' ''data'') ''a.json'')"
proof -
  have h1: "i_download_data bag_with_none ''https://example.org/bag.zip''
              (os_path_join (i_data_dir bag_with_none) (''a1'' @ ''/'')) = Inr ''/data/a1/bag''"
    by (simp add: bag_with_none_def bag_with_two_def download_to_bag_def os_path_join_def
        suffix_to_prefix)
  have h2: "i_listdir bag_with_none (os_path_join ''/data/a1/bag'' ''data'')
              = Inr [''readme.txt'', ''.hidden.json'']"
    by (simp add: bag_with_none_def bag_with_two_def list_none_def)
  have h3: "read_action_status healthy (x_table start_state) ''a1'' = Inr active_action"
    by (simp add: read_action_status_def get_dmo_table_def healthy_def start_state_def
        active_action_def)
  have h4: "put_item_error healthy = None"
    by (simp add: healthy_def)
  have g1: "i_download_data bag_with_two ''https://example.org/bag.zip''
              (os_path_join (i_data_dir bag_with_two) (''a1'' @ ''/'')) = Inr ''/data/a1/bag''"
    by (simp add: bag_with_two_def download_to_bag_def os_path_join_def suffix_to_prefix)
  have g2: "i_listdir bag_with_two (os_path_join ''/data/a1/bag'' ''data'')
              = Inr [''a.json'', ''b.json'']"
    by (simp add: bag_with_two_def list_two_def)
  show ?thesis
    using h1 h2 h3 h4 g2 candidates_none candidates_two
      ingest_takes_first_candidate [OF h1 h2 h3 h4, of None None None]
      ingest_takes_first_candidate [OF g1 g2 h3 h4, of None None None]
    by simp
qed

text \<open>
  The claim as stated fails: with two candidates in the listing the ingest goes on with the
  first one and ends in \<^verbatim>\<open>SUCCEEDED\<close>.
\<close>

theorem ingest_two_candidates_succeeds:
  "schema_candidates [''a.json'', ''b.json''] = [''a.json'', ''b.json'']
   \<and> i_listdir bag_with_two ''/data/a1/bag/data'' = Inr [''a.json'', ''b.json'']
   \<and> map a_status
         (x_table (action_ingest bag_with_two healthy start_state ''a1''
                     ''https://example.org/bag.zip'' None None None))
       = [''SUCCEEDED'']"
  by code_simp

section \<open>Replay of a submission\<close>

text \<open>
  C1 (as amended). The body checks come first. For a submit whose body passes them and whose
  \<^verbatim>\<open>request_id\<close> is the one of a stored Action, \<^verbatim>\<open>run\<close> answers 200 with that
  Action's status as \<^verbatim>\<open>translate_status\<close> renders it, and leaves the store and the list
  of started processes as they were. A submit whose body fails the checks is answered with
  the error of the check, whether or not the \<^verbatim>\<open>request_id\<close> is known.
\<close>

theorem run_replays_after_body_checks:
  "(validate_body cfg (rq_body req) = Inr () \<and>
    read_action_by_request env (s_table (st_store st)) (rq_request_id req) = Inr existing
      \<longrightarrow> run cfg env st req auth =
            Some ((case translate_status existing of
                     Inl e \<Rightarrow> Inl e
                   | Inr res \<Rightarrow> Inr \<lparr>status_code = 200, json = res\<rparr>), st))
   \<and> (validate_body cfg (rq_body req) = Inl e \<longrightarrow> run cfg env st req auth = Some (Inl e, st))"
  by (simp add: run_def run_lookup_def run_found_def)

theorem run_replays_after_body_checks_witness:
  "validate_body open_api (rq_body submit_r1) = Inr ()
   \<and> read_action_by_request healthy (s_table (st_store holding_r1)) (rq_request_id submit_r1)
       = Inr finished_action
   \<and> run open_api healthy holding_r1 submit_r1 carol
       = Some (Inr \<lparr>status_code = 200,
                    json = finished_action\<lparr>a_details :=
                             Some (no_details\<lparr>d_message := Some ''DERIVA restore successful'',
                                              d_error := Some ErrFalse,
                                              d_deriva_id := Some (IdInt 42)\<rparr>)\<rparr>\<rparr>, holding_r1)
   \<and> validate_body open_api (rq_body replay_without_url)
       = Inl (InvalidRequest ''You must provide a data_url to ingest or restore.'')
   \<and> run open_api healthy holding_r1 replay_without_url carol
       = Some (Inl (InvalidRequest ''You must provide a data_url to ingest or restore.''), holding_r1)"
proof -
  have v: "validate_body open_api (rq_body submit_r1) = Inr ()"
    by code_simp
  have r: "read_action_by_request healthy (s_table (st_store holding_r1)) (rq_request_id submit_r1)
             = Inr finished_action"
    by code_simp
  have t: "translate_status finished_action
             = Inr (finished_action\<lparr>a_details :=
                      Some (no_details\<lparr>d_message := Some ''DERIVA restore successful'',
                                       d_error := Some ErrFalse,
                                       d_deriva_id := Some (IdInt 42)\<rparr>)\<rparr>)"
    by (simp add: translate_status_def finished_action_def truthy_id_def int_of_id_def no_details_def)
  have w: "validate_body open_api (rq_body replay_without_url)
             = Inl (InvalidRequest ''You must provide a data_url to ingest or restore.'')"
    by code_simp
  show ?thesis
    using v r t w
      run_replays_after_body_checks [where cfg = open_api and req = submit_r1 and env = healthy
        and st = holding_r1 and existing = finished_action and auth = carol]
      run_replays_after_body_checks [where cfg = open_api and req = replay_without_url
        and env = healthy and st = holding_r1 and auth = carol
        and e = "InvalidRequest ''You must provide a data_url to ingest or restore.''"]
    by simp
qed

text \<open>
  The claim as stated fails: the Action of \<^verbatim>\<open>r1\<close> is stored, and the replay whose body
  lacks \<^verbatim>\<open>data_url\<close> is refused.
\<close>

theorem replay_with_bad_body_is_refused:
  "read_action_by_request healthy (s_table (st_store holding_r1)) (rq_request_id replay_without_url)
     = Inr finished_action
   \<and> run open_api healthy holding_r1 replay_without_url alice
     = Some (Inl (InvalidRequest ''You must provide a data_url to ingest or restore.''), holding_r1)"
  by code_simp

section \<open>Submissions that share a request identifier\<close>

lemma lookup_single:
  assumes "table_state env = TableActive" and "scan_http_status env < 300"
    and "filter (\<lambda>a. request_id a = rid) tbl = [x]"
  shows "read_action_by_request env tbl rid = Inr x"
proof -
  have "scan_loop env tbl rid None [] = Inr [x]"
    using scan_loop_collects [OF assms(2), of tbl rid None "[]"] assms(3) by simp
  then show ?thesis
    using assms(1) by (simp add: read_action_by_request_def get_dmo_table_def)
qed

lemma lookup_not_found:
  assumes "table_state env = TableActive" and "scan_http_status env < 300"
    and "read_action_by_request env tbl rid = Inl (NotFound m)"
  shows "filter (\<lambda>a. request_id a = rid) tbl = []"
proof -
  have "scan_loop env tbl rid None [] = Inr (filter (\<lambda>a. request_id a = rid) tbl)"
    using scan_loop_collects [OF assms(2), of tbl rid None "[]"] by simp
  then show ?thesis
    using assms(1) assms(3)
    by (cases "filter (\<lambda>a. request_id a = rid) tbl")
       (auto simp: read_action_by_request_def get_dmo_table_def split: if_splits)
qed

lemma lookup_multiple:
  assumes "table_state env = TableActive" and "scan_http_status env < 300"
    and "filter (\<lambda>a. request_id a = rid) tbl = x # y # zs"
  shows "read_action_by_request env tbl rid
           = Inl (InternalError (''Multiple entries found for request ID '' @ [CHR 0x27] @ rid
                                 @ [CHR 0x27] @ ''. Please report this error.''))"
proof -
  have "scan_loop env tbl rid None [] = Inr (x # y # zs)"
    using scan_loop_collects [OF assms(2), of tbl rid None "[]"] assms(3) by simp
  then show ?thesis
    using assms(1) by (simp add: read_action_by_request_def get_dmo_table_def)
qed

lemma run_lookup_none:
  assumes "run_lookup cfg env st req = Inr None"
  shows "validate_body cfg (rq_body req) = Inr ()
         \<and> (\<exists>m. read_action_by_request env (s_table (st_store st)) (rq_request_id req)
                  = Inl (NotFound m))"
  using assms
  by (auto simp: run_lookup_def split: sum.splits error.splits)

lemma generate_action_id_fresh:
  "generate_action_id env tbl ids = Some (Inr aid, rest) \<Longrightarrow>
     \<exists>m. read_action_status env tbl aid = Inl (NotFound m)"
proof (induction ids)
  case Nil
  then show ?case by simp
next
  case (Cons c cs)
  show ?case
  proof (cases "read_action_status env tbl c")
    case (Inl e)
    with Cons.prems show ?thesis
      by (cases e) auto
  next
    case (Inr entry)
    with Cons show ?thesis by simp
  qed
qed

lemma not_found_no_key:
  assumes "read_action_status env tbl aid = Inl (NotFound m)" and "table_state env = TableActive"
  shows "\<not> has_key tbl aid"
  using assms
  by (auto simp: read_action_status_def get_dmo_table_def has_key_def split: option.splits)

lemma build_job_shape:
  "build_job cfg auth req = Inr job0 \<Longrightarrow>
     a_details job0 = None \<and> request_id job0 = rq_request_id req"
  by (auto simp: build_job_def Let_def split: sum.splits option.splits if_splits)

lemma create_action_status_success:
  assumes "create_action_status env s job0 = Some (Inr job, s')" and "a_details job0 = None"
  shows "\<exists>aid. table_state env = TableActive
           \<and> job = job0\<lparr>action_id := aid,
                         a_details := Some (no_details\<lparr>d_message := Some ''Action started''\<rparr>)\<rparr>
           \<and> \<not> has_key (s_table s) aid
           \<and> s_table s' = s_table s @ [job]"
proof -
  have active: "get_dmo_table env = Inr ()"
    using assms(1) by (cases "get_dmo_table env") (auto simp: create_action_status_def)
  then have state: "table_state env = TableActive"
    by (auto simp: get_dmo_table_def split: table_state.splits)
  obtain aid ids where gen: "generate_action_id env (s_table s) (s_ids s) = Some (Inr aid, ids)"
    using assms(1) active
    by (auto simp: create_action_status_def split: option.splits sum.splits prod.splits)
  then obtain m where "read_action_status env (s_table s) aid = Inl (NotFound m)"
    using generate_action_id_fresh by blast
  then have fresh: "\<not> has_key (s_table s) aid"
    using state by (rule not_found_no_key)
  define st where
    "st = job0\<lparr>action_id := aid,
               a_details := Some (no_details\<lparr>d_message := Some ''Action started''\<rparr>)\<rparr>"
  have stored: "stored_item st = st"
    by (simp add: stored_item_def st_def no_details_def)
  have key: "action_id st = aid"
    by (simp add: st_def)
  have "create_action_status env s job0 =
          (case put_item env (s_table s) st True of
             Inl m \<Rightarrow> Some (Inl (ServiceError m), s\<lparr>s_ids := ids\<rparr>)
           | Inr tbl \<Rightarrow> Some (Inr st, s\<lparr>s_table := tbl, s_ids := ids\<rparr>))"
    unfolding st_def using active gen assms(2)
    by (simp add: create_action_status_def Let_def details_falsy_def)
  moreover have "put_item env (s_table s) st True =
          (case put_item_error env of Some m \<Rightarrow> Inl m | None \<Rightarrow> Inr (s_table s @ [st]))"
    using fresh stored key by (simp add: put_item_def split: option.splits)
  ultimately have "create_action_status env s job0 =
          (case put_item_error env of
             Some m \<Rightarrow> Some (Inl (ServiceError m), s\<lparr>s_ids := ids\<rparr>)
           | None \<Rightarrow> Some (Inr st, s\<lparr>s_table := s_table s @ [st], s_ids := ids\<rparr>))"
    by (simp split: option.splits)
  with assms(1) have "job = st \<and> s' = s\<lparr>s_table := s_table s @ [st], s_ids := ids\<rparr>"
    by (cases "put_item_error env") auto
  then have "job = st \<and> s_table s' = s_table s @ [job]"
    by auto
  then show ?thesis
    using state fresh st_def by blast
qed

lemma run_new_success:
  assumes "run_new cfg env st req auth = Some (Inr resp, st')"
  shows "table_state env = TableActive
         \<and> status_code resp = 202
         \<and> request_id (json resp) = rq_request_id req
         \<and> \<not> has_key (s_table (st_store st)) (action_id (json resp))
         \<and> s_table (st_store st') = s_table (st_store st) @ [json resp]
         \<and> translate_status (json resp) = Inr (json resp)"
proof -
  obtain job0 where job0: "build_job cfg auth req = Inr job0"
    using assms by (cases "build_job cfg auth req") (auto simp: run_new_def)
  then have shape: "a_details job0 = None \<and> request_id job0 = rq_request_id req"
    by (rule build_job_shape)
  obtain job s where created: "create_action_status env (st_store st) job0 = Some (Inr job, s)"
    using assms job0
    by (auto simp: run_new_def split: option.splits sum.splits prod.splits)
  then obtain aid where active: "table_state env = TableActive"
    and job: "job = job0\<lparr>action_id := aid,
                       a_details := Some (no_details\<lparr>d_message := Some ''Action started''\<rparr>)\<rparr>"
    and fresh: "\<not> has_key (s_table (st_store st)) aid"
    and tbl: "s_table s = s_table (st_store st) @ [job]"
    using shape create_action_status_success by blast
  have tr: "translate_status job = Inr job"
    by (simp add: job translate_status_def no_details_def)
  have rid: "request_id job = rq_request_id req"
    using shape by (simp add: job)
  have key: "action_id job = aid"
    by (simp add: job)
  have "resp = \<lparr>status_code = 202, json = job\<rparr> \<and> st_store st' = s"
    using assms job0 created tr
    by (cases "start_action cfg (action_id job) (rq_body req)") (auto simp: run_new_def)
  then show ?thesis
    using active tr rid key fresh tbl by simp
qed

lemma has_key_iff: "has_key tbl aid = (\<exists>a \<in> set tbl. action_id a = aid)"
  by (auto simp: has_key_def find_None_iff)

lemma put_failure_is_service_error:
  assumes "table_state env = TableActive"
    and "generate_action_id env (s_table s) (s_ids s) = Some (Inr aid, ids)"
    and "put_item_error env = Some m"
  shows "create_action_status env s job0 = Some (Inl (ServiceError m), s\<lparr>s_ids := ids\<rparr>)"
  using assms
  by (simp add: create_action_status_def get_dmo_table_def Let_def put_item_def)

text \<open>
  C2 (code bug). \<^verbatim>\<open>run\<close> looks the \<^verbatim>\<open>request_id\<close> up and creates afterwards, and the
  conditional put of \<^verbatim>\<open>create_action_status\<close> is keyed by the freshly generated
  \<^verbatim>\<open>action_id\<close>, so it does not see a second record of the same \<^verbatim>\<open>request_id\<close>.
  With the scan answering, take two submits of one request that both found no record
  (the lookup does not depend on the caller) and then both create, one after the other.
  Both are answered with status 202 and an Action of their own: the table then holds two
  records of the \<^verbatim>\<open>request_id\<close>, under different \<^verbatim>\<open>action_id\<close>s, the case that
  \<^verbatim>\<open>read_action_by_request\<close> says should never happen; and from then on every submit of
  that request fails with \<^verbatim>\<open>InternalError\<close>. Had the second submit looked up after the
  first one created, it would have got the first Action with status 200. And a put that
  the store refuses is raised to the caller as \<^verbatim>\<open>ServiceError\<close>; no lookup by
  \<^verbatim>\<open>request_id\<close> follows.
\<close>

theorem racing_submits_duplicate_request_id:
  assumes "scan_http_status env < 300"
    and "run_lookup cfg env st req = Inr None"
    and "run_new cfg env st req auth1 = Some (Inr resp1, st1)"
    and "run_new cfg env st1 req auth2 = Some (Inr resp2, st2)"
  shows "status_code resp1 = 202 \<and> status_code resp2 = 202
       \<and> action_id (json resp2) \<noteq> action_id (json resp1)
       \<and> filter (\<lambda>a. request_id a = rq_request_id req) (s_table (st_store st2))
           = [json resp1, json resp2]
       \<and> run cfg env st2 req auth3
           = Some (Inl (InternalError (''Multiple entries found for request ID '' @ [CHR 0x27]
                                       @ rq_request_id req @ [CHR 0x27]
                                       @ ''. Please report this error.'')), st2)
       \<and> run cfg env st1 req auth2 = Some (Inr \<lparr>status_code = 200, json = json resp1\<rparr>, st1)
       \<and> (table_state env' = TableActive
            \<and> build_job cfg auth1 req = Inr job0
            \<and> generate_action_id env' (s_table (st_store st)) (s_ids (st_store st)) = Some (Inr aid, ids)
            \<and> put_item_error env' = Some m \<longrightarrow>
            run_new cfg env' st req auth1
              = Some (Inl (ServiceError m), st\<lparr>st_store := (st_store st)\<lparr>s_ids := ids\<rparr>\<rparr>))"
proof -
  let ?rid = "rq_request_id req"
  let ?tbl = "s_table (st_store st)"
  have first: "table_state env = TableActive
         \<and> status_code resp1 = 202
         \<and> request_id (json resp1) = ?rid
         \<and> \<not> has_key ?tbl (action_id (json resp1))
         \<and> s_table (st_store st1) = ?tbl @ [json resp1]
         \<and> translate_status (json resp1) = Inr (json resp1)"
    using assms(3) by (rule run_new_success)
  have second: "status_code resp2 = 202
         \<and> request_id (json resp2) = ?rid
         \<and> \<not> has_key (s_table (st_store st1)) (action_id (json resp2))
         \<and> s_table (st_store st2) = s_table (st_store st1) @ [json resp2]"
    using run_new_success [OF assms(4)] by simp
  have checked: "validate_body cfg (rq_body req) = Inr ()"
    using assms(2) run_lookup_none by blast
  obtain m0 where "read_action_by_request env ?tbl ?rid = Inl (NotFound m0)"
    using assms(2) run_lookup_none by blast
  then have none: "filter (\<lambda>a. request_id a = ?rid) ?tbl = []"
    using first assms(1) lookup_not_found by blast
  then have one: "filter (\<lambda>a. request_id a = ?rid) (s_table (st_store st1)) = [json resp1]"
    using first by simp
  then have two: "filter (\<lambda>a. request_id a = ?rid) (s_table (st_store st2))
                    = [json resp1, json resp2]"
    using second by simp
  have "has_key (s_table (st_store st1)) (action_id (json resp1))"
    using first by (simp add: has_key_iff)
  then have distinct: "action_id (json resp2) \<noteq> action_id (json resp1)"
    using second by auto
  have "read_action_by_request env (s_table (st_store st2)) ?rid
          = Inl (InternalError (''Multiple entries found for request ID '' @ [CHR 0x27] @ ?rid
                                @ [CHR 0x27] @ ''. Please report this error.''))"
    using first assms(1) two lookup_multiple by blast
  then have broken: "run cfg env st2 req auth3
          = Some (Inl (InternalError (''Multiple entries found for request ID '' @ [CHR 0x27]
                                      @ ?rid @ [CHR 0x27] @ ''. Please report this error.'')), st2)"
    using checked by (simp add: run_def run_lookup_def)
  have "read_action_by_request env (s_table (st_store st1)) ?rid = Inr (json resp1)"
    using first assms(1) one lookup_single by blast
  then have replay: "run cfg env st1 req auth2
                       = Some (Inr \<lparr>status_code = 200, json = json resp1\<rparr>, st1)"
    using checked first by (simp add: run_def run_lookup_def run_found_def)
  have refused: "run_new cfg env' st req auth1
              = Some (Inl (ServiceError m), st\<lparr>st_store := (st_store st)\<lparr>s_ids := ids\<rparr>\<rparr>)"
    if "table_state env' = TableActive \<and> build_job cfg auth1 req = Inr job0
        \<and> generate_action_id env' ?tbl (s_ids (st_store st)) = Some (Inr aid, ids)
        \<and> put_item_error env' = Some m"
    using that put_failure_is_service_error [of env' "st_store st" aid ids m job0]
    by (simp add: run_new_def)
  show ?thesis
    using first second distinct two broken replay refused by blast
qed

theorem racing_submits_duplicate_request_id_witness:
  "scan_http_status healthy < 300
   \<and> run_lookup open_api healthy empty_state submit_r1 = Inr None
   \<and> run_new open_api healthy empty_state submit_r1 alice
       = Some (Inr \<lparr>status_code = 202, json = job_alice\<rparr>, after_first)
   \<and> run_new open_api healthy after_first submit_r1 bob
       = Some (Inr \<lparr>status_code = 202, json = job_bob\<rparr>, after_second)
   \<and> action_id job_bob \<noteq> action_id job_alice
   \<and> filter (\<lambda>a. request_id a = ''r1'') (s_table (st_store after_second)) = [job_alice, job_bob]
   \<and> run open_api healthy after_second submit_r1 carol
       = Some (Inl (InternalError (''Multiple entries found for request ID '' @ [CHR 0x27]
                                   @ ''r1'' @ [CHR 0x27] @ ''. Please report this error.'')),
               after_second)
   \<and> run open_api healthy after_first submit_r1 bob
       = Some (Inr \<lparr>status_code = 200, json = job_alice\<rparr>, after_first)
   \<and> run_new open_api failing_put empty_state submit_r1 alice
       = Some (Inl (ServiceError ''ConditionalCheckFailedException''),
               empty_state\<lparr>st_store := (st_store empty_state)\<lparr>s_ids := [''id2'']\<rparr>\<rparr>)"
proof -
  have h1: "scan_http_status healthy < 300"
    by (simp add: healthy_def)
  have h2: "run_lookup open_api healthy empty_state submit_r1 = Inr None"
    by code_simp
  have h3: "run_new open_api healthy empty_state submit_r1 alice
              = Some (Inr \<lparr>status_code = 202, json = job_alice\<rparr>, after_first)"
    by code_simp
  have h4: "run_new open_api healthy after_first submit_r1 bob
              = Some (Inr \<lparr>status_code = 202, json = job_bob\<rparr>, after_second)"
    by code_simp
  have h5: "table_state failing_put = TableActive
            \<and> build_job open_api alice submit_r1 = Inr (job_alice\<lparr>action_id := [], a_details := None\<rparr>)
            \<and> generate_action_id failing_put (s_table (st_store empty_state))
                 (s_ids (st_store empty_state)) = Some (Inr ''id1'', [''id2''])
            \<and> put_item_error failing_put = Some ''ConditionalCheckFailedException''"
    by code_simp
  have h6: "rq_request_id submit_r1 = ''r1''"
    by (simp add: submit_r1_def)
  show ?thesis
    using h1 h2 h3 h4 h5 h6
      racing_submits_duplicate_request_id [OF h1 h2 h3 h4, where ?auth3.0 = carol
        and env' = failing_put
        and ?job0.0 = "job_alice\<lparr>action_id := [], a_details := None\<rparr>"
        and aid = "''id1''" and ids = "[''id2'']" and m = "''ConditionalCheckFailedException''"]
    by simp
qed

section \<open>The output of the restore tool\<close>

lemma split_aux_not_empty: "split_aux sep acc s \<noteq> []"
  by (induction sep acc s rule: split_aux.induct) auto

lemma split_aux_hd:
  "sep \<noteq> [] \<Longrightarrow> hd (split_aux sep acc s) = rev acc @ text_before_first sep s"
  by (induction s arbitrary: acc) auto

lemma first_item_split:
  assumes "sep \<noteq> []"
  shows "first_item (py_split s sep) = Inr (text_before_first sep s)"
proof -
  obtain x xs where shape: "split_aux sep [] s = x # xs"
    using split_aux_not_empty [of sep "[]" s] by (cases "split_aux sep [] s") auto
  then have "x = text_before_first sep s"
    using split_aux_hd [OF assms, of "[]" s] by simp
  with shape show ?thesis
    by (simp add: py_split_def first_item_def)
qed

lemma sublist_skip: "c \<notin> set a \<Longrightarrow> sublist (c # cs) (a @ rest) = sublist (c # cs) rest"
  by (induction a) (auto simp: sublist_Cons_right)

lemma sublist_behind: "sublist sep rest \<Longrightarrow> sublist sep (a @ rest)"
proof -
  assume "sublist sep rest"
  then obtain ps ss where "rest = ps @ sep @ ss"
    by (auto simp: sublist_def)
  then have "a @ rest = (a @ ps) @ sep @ ss"
    by simp
  then show ?thesis
    by (simp only: sublist_appendI)
qed

lemma text_after_last_skip:
  "sublist sep rest \<Longrightarrow> text_after_last sep (a @ rest) = text_after_last sep rest"
  by (induction a) (simp_all add: sublist_behind)

lemma text_after_last_absent: "\<not> sublist sep s \<Longrightarrow> text_after_last sep s = s"
  by (cases s) (auto simp: sublist_Cons_right)

lemma text_after_last_at_separator:
  assumes "c \<notin> set cs" and "\<not> sublist (c # cs) rest"
  shows "text_after_last (c # cs) ((c # cs) @ rest) = rest"
proof -
  have "\<not> sublist (c # cs) (cs @ rest)"
    using assms by (simp add: sublist_skip)
  then show ?thesis
    by simp
qed

lemma split_aux_last:
  assumes "c \<notin> set cs"
  shows "last (split_aux (c # cs) acc s)
           = (if sublist (c # cs) s then text_after_last (c # cs) s else rev acc @ s)"
proof (induction s arbitrary: acc rule: length_induct)
  case (1 s)
  let ?sep = "c # cs"
  show ?case
  proof (cases s)
    case Nil
    then show ?thesis by simp
  next
    case (Cons x xs)
    show ?thesis
    proof (cases "prefix ?sep (x # xs)")
      case True
      then obtain rest where rest: "x # xs = ?sep @ rest"
        by (auto simp: prefix_def)
      then have shorter: "length rest < length s"
        using Cons arg_cong [OF rest, of length] by simp
      have step: "split_aux ?sep acc s = rev acc # split_aux ?sep [] rest"
        using True Cons rest by simp
      have "last (split_aux ?sep acc s) = last (split_aux ?sep [] rest)"
        unfolding step using split_aux_not_empty by simp
      also have "\<dots> = (if sublist ?sep rest then text_after_last ?sep rest else rest)"
        using 1 shorter by simp
      also have "\<dots> = text_after_last ?sep (?sep @ rest)"
        using text_after_last_skip [of ?sep rest ?sep]
          text_after_last_at_separator [OF assms, of rest]
        by (simp only: split: if_splits) auto
      finally show ?thesis
        using True Cons rest by (simp add: prefix_imp_sublist)
    next
      case False
      then have step: "split_aux ?sep acc s = split_aux ?sep (x # acc) xs"
        using Cons by auto
      have occurs: "sublist ?sep s = sublist ?sep xs"
        using False Cons by (auto simp: sublist_Cons_right)
      have "last (split_aux ?sep acc s)
              = (if sublist ?sep xs then text_after_last ?sep xs else rev (x # acc) @ xs)"
        unfolding step using 1 Cons by simp
      then show ?thesis
        using occurs Cons by auto
    qed
  qed
qed

lemma last_item_split:
  assumes "c \<notin> set cs"
  shows "last_item (py_split s (c # cs)) = Inr (text_after_last (c # cs) s)"
proof -
  have "last (split_aux (c # cs) [] s) = text_after_last (c # cs) s"
    using split_aux_last [OF assms, of "[]" s] text_after_last_absent [of "c # cs" s] by simp
  moreover have "last_item (split_aux (c # cs) [] s) = Inr (last (split_aux (c # cs) [] s))"
    using split_aux_not_empty [of "c # cs" "[]" s]
    by (cases "split_aux (c # cs) [] s" rule: rev_cases) (simp_all add: last_item_def)
  ultimately show ?thesis
    by (simp add: py_split_def)
qed

text \<open>
  The two functions cut a text where their names say: \<^verbatim>\<open>text_before_first\<close> ends where
  the text ends or where an occurrence of \<^verbatim>\<open>sep\<close> starts; \<^verbatim>\<open>text_after_last\<close> starts
  right after an occurrence of \<^verbatim>\<open>sep\<close> and holds no further one.
\<close>

lemma text_before_first_cut:
  "\<exists>rest. s = text_before_first sep s @ rest \<and> (rest = [] \<or> prefix sep rest)"
  by (induction s) auto

lemma text_after_last_cut:
  "sublist sep s \<Longrightarrow> \<exists>p. s = p @ sep @ text_after_last sep s"
proof (induction s)
  case Nil
  then show ?case by simp
next
  case (Cons c cs)
  show ?case
  proof (cases "sublist sep cs")
    case True
    then obtain p where "cs = p @ sep @ text_after_last sep cs"
      using Cons.IH by blast
    then have "c # cs = (c # p) @ sep @ text_after_last sep (c # cs)"
      using True by simp
    then show ?thesis by blast
  next
    case False
    with Cons.prems have "prefix sep (c # cs)"
      by (simp add: sublist_Cons_right)
    then obtain rest where rest: "c # cs = sep @ rest"
      by (auto simp: prefix_def)
    then have "drop (length sep) (c # cs) = rest"
      by (metis append_eq_conv_conj)
    then have after: "text_after_last sep (c # cs) = rest"
      using False \<open>prefix sep (c # cs)\<close> by simp
    have "c # cs = [] @ sep @ text_after_last sep (c # cs)"
      unfolding after using rest by simp
    then show ?thesis by blast
  qed
qed

lemma text_after_last_clear: "sep \<noteq> [] \<Longrightarrow> \<not> sublist sep (text_after_last sep s)"
proof (induction s)
  case Nil
  then show ?case by simp
next
  case (Cons c cs)
  show ?case
  proof (cases "sublist sep cs")
    case True
    with Cons show ?thesis by simp
  next
    case False
    show ?thesis
    proof (cases "prefix sep (c # cs)")
      case True
      then obtain rest where rest: "c # cs = sep @ rest"
        by (auto simp: prefix_def)
      then have d: "drop (length sep) (c # cs) = rest"
        by (metis append_eq_conv_conj)
      obtain x xs where "sep = x # xs"
        using Cons.prems by (cases sep) auto
      with rest have "cs = xs @ rest"
        by simp
      then have "\<not> sublist sep rest"
        using False sublist_append_leftI sublist_order.order_trans by metis
      with False True d show ?thesis by simp
    next
      case no: False
      with False show ?thesis
        by (simp add: sublist_Cons_right)
    qed
  qed
qed

text \<open>
  C5 (as amended). The parser asks for the success marker only: an output without
  \<^verbatim>\<open>completed successfully\<close> is a parse failure. For every output that holds the
  marker, the parser takes the text after the last \<^verbatim>\<open>Restore of catalog\<close> (the whole
  output when that marker is absent), keeps what comes before the first
  \<^verbatim>\<open>completed successfully\<close> in it (all of it when there is none), strips the
  whitespace at both ends, takes what follows the last slash (all of it when there is no
  slash) and reads it with \<^verbatim>\<open>int\<close>: the result is that integer with the link built from
  it, or the failure of \<^verbatim>\<open>int\<close>.
\<close>

theorem parse_restore_output_extraction:
  "parse_restore_output server msg =
     (if sublist ''completed successfully'' msg
      then (case py_int (text_after_last ''/''
                           (py_strip (text_before_first ''completed successfully''
                                        (text_after_last ''Restore of catalog'' msg)))) of
              Inl e \<Rightarrow> Inl e
            | Inr deriva_id \<Rightarrow>
                Inr (deriva_id,
                     ''https://'' @ server @ ''/chaise/recordset/#'' @ str_int deriva_id
                     @ ''/demo:Samples''))
      else Inl (ValueError (''DERIVA restore failed: '' @ msg)))"
proof -
  have restore: "last_item (py_split s ''Restore of catalog'')
                   = Inr (text_after_last ''Restore of catalog'' s)" for s
    by (rule last_item_split) simp
  have success: "first_item (py_split s ''completed successfully'')
                   = Inr (text_before_first ''completed successfully'' s)" for s
    by (rule first_item_split) simp
  have slash: "last_item (py_split s ''/'') = Inr (text_after_last ''/'' s)" for s
    by (rule last_item_split) simp
  show ?thesis
    unfolding parse_restore_output_def Let_def restore success slash
    by (simp split: sum.splits)
qed

theorem parse_restore_output_extraction_witness:
  "parse_restore_output ''demo.derivacloud.org'' ''Restore of catalog 42 completed successfully''
     = Inr (42, ''https://demo.derivacloud.org/chaise/recordset/#42/demo:Samples'')
   \<and> parse_restore_output ''demo.derivacloud.org''
       ''INFO Restore of catalog https://demo.derivacloud.org/ermrest/catalog/7 completed successfully. Done''
     = Inr (7, ''https://demo.derivacloud.org/chaise/recordset/#7/demo:Samples'')
   \<and> parse_restore_output ''demo.derivacloud.org'' ''Restore of catalog abc completed successfully''
     = Inl (ValueError ''abc'')
   \<and> parse_restore_output ''demo.derivacloud.org'' ''Restore of catalog 42 failed''
     = Inl (ValueError ''DERIVA restore failed: Restore of catalog 42 failed'')"
proof -
  let ?server = "''demo.derivacloud.org''"
  let ?rhs = "\<lambda>msg.
     (if sublist ''completed successfully'' msg
      then (case py_int (text_after_last ''/''
                           (py_strip (text_before_first ''completed successfully''
                                        (text_after_last ''Restore of catalog'' msg)))) of
              Inl e \<Rightarrow> Inl e
            | Inr deriva_id \<Rightarrow>
                Inr (deriva_id,
                     ''https://'' @ ?server @ ''/chaise/recordset/#'' @ str_int deriva_id
                     @ ''/demo:Samples''))
      else Inl (ValueError (''DERIVA restore failed: '' @ msg)))"
  have e1: "?rhs ''Restore of catalog 42 completed successfully''
              = Inr (42, ''https://demo.derivacloud.org/chaise/recordset/#42/demo:Samples'')"
    by code_simp
  have e2: "?rhs ''INFO Restore of catalog https://demo.derivacloud.org/ermrest/catalog/7 completed successfully. Done''
              = Inr (7, ''https://demo.derivacloud.org/chaise/recordset/#7/demo:Samples'')"
    by code_simp
  have e3: "?rhs ''Restore of catalog abc completed successfully'' = Inl (ValueError ''abc'')"
    by code_simp
  have e4: "?rhs ''Restore of catalog 42 failed''
              = Inl (ValueError ''DERIVA restore failed: Restore of catalog 42 failed'')"
    by code_simp
  show ?thesis
    using e1 e2 e3 e4 by (simp only: parse_restore_output_extraction)
qed

text \<open>
  The claim as stated fails: two outputs without the shape ``\<^verbatim>\<open>Restore of catalog\<close>, then
  later \<^verbatim>\<open>completed successfully\<close>'' still yield an identifier. The first has no
  \<^verbatim>\<open>Restore of catalog\<close> marker; in the second the success marker comes before it.
\<close>

theorem identifier_without_marker_shape:
  "\<not> sublist ''Restore of catalog'' ''42 completed successfully''
   \<and> parse_restore_output ''demo.derivacloud.org'' ''42 completed successfully''
       = Inr (42, ''https://demo.derivacloud.org/chaise/recordset/#42/demo:Samples'')
   \<and> parse_restore_output ''demo.derivacloud.org'' ''completed successfully. Restore of catalog 42''
       = Inr (42, ''https://demo.derivacloud.org/chaise/recordset/#42/demo:Samples'')"
  by code_simp

end
